theory Spec2Isabelle
  imports Main "HOL-Library.Sublist"
begin

section \<open>Values, exceptions and effects\<close>

text \<open>
  The client decodes JSON and hands it to pandas. A table cell is the decoded scalar, or
  \<open>NaN\<close> where a row lacks the key. Objects are Python dicts: association lists in
  insertion order. Nested members of an object (an article's author list, say) are never
  read by the client and are left out; pandas' dtype inference is not modelled, a cell
  keeps the value that was decoded.
\<close>

datatype val = NaN | PyNone | PyBool bool | PyInt int | PyStr string

type_synonym obj = "(string \<times> val) list"

text \<open>
  \<open>HTTPError\<close> is the one class the client catches. \<open>OtherException\<close> stands for every
  other class (TypeError, ValueError, a connection failure of the transport, ...).
\<close>

datatype exn = HTTPError | KeyError string | IndexError | OtherException

datatype http_method = GET | POST

record request =
  req_method :: http_method
  req_url :: string
  req_headers :: "(string \<times> string) list"
  req_params :: "(string \<times> val) list option"

datatype level = INFO | WARNING

text \<open>
  What a call does to the outside, in order: requests handed to the transport, lines
  handed to the logger, prompts shown on the console.
\<close>

datatype event = Request request | Logged level string | Prompt string

type_synonym 'a io = "(exn + 'a) \<times> event list"

definition bind_io :: "'a io \<Rightarrow> ('a \<Rightarrow> 'b io) \<Rightarrow> 'b io" where
  "bind_io m f =
     (case m of
        (Inl e, ev) \<Rightarrow> (Inl e, ev)
      | (Inr x, ev) \<Rightarrow> (case f x of (r, ev') \<Rightarrow> (r, ev @ ev')))"

definition return_io :: "'a \<Rightarrow> 'a io" where
  "return_io x = (Inr x, [])"

definition raise_io :: "exn \<Rightarrow> 'a io" where
  "raise_io e = (Inl e, [])"

definition lift_io :: "exn + 'a \<Rightarrow> 'a io" where
  "lift_io r = (r, [])"

definition log_info :: "string \<Rightarrow> unit io" where
  "log_info msg = (Inr (), [Logged INFO msg])"

definition log_warning :: "string \<Rightarrow> unit io" where
  "log_warning msg = (Inr (), [Logged WARNING msg])"

text \<open>
  The collaborators the client calls into. The transport \<open>redata_request\<close> answers a
  request with decoded JSON or raises; its answer is a function of the request. The three
  response functions give the answer in the shape the endpoint family has: a JSON array of
  objects, the role structure (group id to role records), or one object. \<open>re_engine\<close> is
  the regular-expression library behind \<open>Series.str.contains\<close>: a pattern compiles to a
  search predicate, or fails to compile.
\<close>

record services =
  table_response :: "request \<Rightarrow> exn + obj list"
  roles_response :: "request \<Rightarrow> exn + (string \<times> obj list) list"
  object_response :: "request \<Rightarrow> exn + obj"
  re_engine :: "string \<Rightarrow> (string \<Rightarrow> bool) option"

definition redata_request :: "(request \<Rightarrow> exn + 'a) \<Rightarrow> http_method \<Rightarrow> string \<Rightarrow>
    (string \<times> string) list \<Rightarrow> (string \<times> val) list option \<Rightarrow> 'a io" where
  "redata_request respond m url hdrs params =
     (let req = \<lparr>req_method = m, req_url = url, req_headers = hdrs, req_params = params\<rparr>
      in (respond req, [Request req]))"

section \<open>Python strings\<close>

text \<open>
  A string is a list of characters, as HOL's \<open>string\<close> has them (8 bits each); text
  beyond that range is not represented. \<open>str\<close> of an integer is its decimal numeral.
\<close>

definition digit_char :: "nat \<Rightarrow> char" where
  "digit_char d = ''0123456789'' ! d"

fun str_nat :: "nat \<Rightarrow> string" where
  "str_nat n = (if n < 10 then [digit_char n] else str_nat (n div 10) @ [digit_char (n mod 10)])"

declare str_nat.simps [simp del]

definition str_int :: "int \<Rightarrow> string" where
  "str_int i = (if i < 0 then CHR ''-'' # str_nat (nat (- i)) else str_nat (nat i))"

text \<open>\<open>str(x)\<close>, also what an f-string puts in place of \<open>{x}\<close>.\<close>

fun py_str :: "val \<Rightarrow> string" where
  "py_str NaN = ''nan''"
| "py_str PyNone = ''None''"
| "py_str (PyBool b) = (if b then ''True'' else ''False'')"
| "py_str (PyInt i) = str_int i"
| "py_str (PyStr s) = s"

text \<open>Truth value of an object in a condition.\<close>

fun py_truthy :: "val \<Rightarrow> bool" where
  "py_truthy NaN = True"
| "py_truthy PyNone = False"
| "py_truthy (PyBool b) = b"
| "py_truthy (PyInt i) = (i \<noteq> 0)"
| "py_truthy (PyStr s) = (s \<noteq> [])"

text \<open>
  \<open>str.lower\<close> on the ASCII letters. No character outside ASCII lowers to one of
  \<open>y\<close>, \<open>e\<close>, \<open>s\<close>, so the comparison with \<open>'yes'\<close> is not affected.
\<close>

definition lower_char :: "char \<Rightarrow> char" where
  "lower_char c =
     (case map_of (zip ''ABCDEFGHIJKLMNOPQRSTUVWXYZ'' ''abcdefghijklmnopqrstuvwxyz'') c of
        Some l \<Rightarrow> l | None \<Rightarrow> c)"

definition py_lower :: "string \<Rightarrow> string" where
  "py_lower s = map lower_char s"

text \<open>
  \<open>s.replace(old, new)\<close>: every non-overlapping occurrence, leftmost first. With an
  empty \<open>old\<close> Python puts \<open>new\<close> before every character and at the end.
\<close>

fun replace_occ :: "string \<Rightarrow> string \<Rightarrow> string \<Rightarrow> string" where
  "replace_occ old new [] = []"
| "replace_occ old new (c # cs) =
     (if old \<noteq> [] \<and> prefix old (c # cs)
      then new @ replace_occ old new (drop (length old - 1) cs)
      else c # replace_occ old new cs)"

definition py_replace :: "string \<Rightarrow> string \<Rightarrow> string \<Rightarrow> string" where
  "py_replace s old new =
     (if old = [] then new @ concat (map (\<lambda>c. c # new) s) else replace_occ old new s)"

text \<open>
  \<open>Series.str.contains(pat)\<close> searches with \<open>pat\<close> as a regular expression (the pandas
  default). A pattern made of ordinary characters and \<open>.\<close> is decided here: \<open>.\<close> stands
  for any character but a newline, any other character for itself. Patterns using further
  regex operators go to the engine.
\<close>

definition regex_special :: "char set" where
  "regex_special = insert (CHR 0x5C) (set ''.^$*+?{}[]|()'')"

fun dot_match_here :: "string \<Rightarrow> string \<Rightarrow> bool" where
  "dot_match_here [] s = True"
| "dot_match_here (p # ps) [] = False"
| "dot_match_here (p # ps) (c # cs) =
     ((if p = CHR ''.'' then c \<noteq> CHR 0x0A else p = c) \<and> dot_match_here ps cs)"

fun dot_search :: "string \<Rightarrow> string \<Rightarrow> bool" where
  "dot_search pat [] = dot_match_here pat []"
| "dot_search pat (c # cs) = (dot_match_here pat (c # cs) \<or> dot_search pat cs)"

definition re_search :: "services \<Rightarrow> string \<Rightarrow> (string \<Rightarrow> bool) option" where
  "re_search srv pat =
     (if \<forall>c \<in> set pat. c = CHR ''.'' \<or> c \<notin> regex_special
      then Some (dot_search pat)
      else re_engine srv pat)"

section \<open>Python containers and the pandas table\<close>

definition bind_exn :: "exn + 'a \<Rightarrow> ('a \<Rightarrow> exn + 'b) \<Rightarrow> exn + 'b" where
  "bind_exn r f = (case r of Inl e \<Rightarrow> Inl e | Inr x \<Rightarrow> f x)"

text \<open>\<open>d[key]\<close> on a dict and \<open>xs[n] = v\<close> on a list or array.\<close>

definition dict_getitem :: "obj \<Rightarrow> string \<Rightarrow> exn + val" where
  "dict_getitem d k = (case map_of d k of None \<Rightarrow> Inl (KeyError k) | Some v \<Rightarrow> Inr v)"

definition py_setitem :: "'a list \<Rightarrow> nat \<Rightarrow> 'a \<Rightarrow> exn + 'a list" where
  "py_setitem xs n v = (if n < length xs then Inr (xs[n := v]) else Inl IndexError)"

text \<open>
  A DataFrame: the row labels and the columns in order, each column holding one cell per
  row.
\<close>

record dataframe =
  df_index :: "nat list"
  df_cols :: "(string \<times> val list) list"

text \<open>
  \<open>pd.DataFrame(records)\<close> on a list of dicts: the columns are the keys in order of first
  appearance, a row without the key gets NaN, the rows are labelled from zero. An empty list
  gives a table without columns.
\<close>

definition first_seen :: "'a list \<Rightarrow> 'a list" where
  "first_seen ks = rev (remdups (rev ks))"

definition cell_of :: "obj \<Rightarrow> string \<Rightarrow> val" where
  "cell_of d k = (case map_of d k of None \<Rightarrow> NaN | Some v \<Rightarrow> v)"

definition pd_DataFrame :: "obj list \<Rightarrow> dataframe" where
  "pd_DataFrame records =
     \<lparr>df_index = [0..<length records],
      df_cols = map (\<lambda>k. (k, map (\<lambda>d. cell_of d k) records))
                    (first_seen (concat (map (map fst) records)))\<rparr>"

definition df_shape0 :: "dataframe \<Rightarrow> nat" where
  "df_shape0 df = length (df_index df)"

definition df_columns :: "dataframe \<Rightarrow> string list" where
  "df_columns df = map fst (df_cols df)"

definition df_getitem :: "dataframe \<Rightarrow> string \<Rightarrow> exn + val list" where
  "df_getitem df name =
     (case map_of (df_cols df) name of None \<Rightarrow> Inl (KeyError name) | Some vs \<Rightarrow> Inr vs)"

text \<open>\<open>df[name] = values\<close>: replaces the column of that name, or appends a new one.\<close>

definition df_setitem :: "dataframe \<Rightarrow> string \<Rightarrow> val list \<Rightarrow> exn + dataframe" where
  "df_setitem df name vs =
     (if length vs \<noteq> length (df_index df) then Inl OtherException
      else if name \<in> set (df_columns df)
      then Inr (df\<lparr>df_cols := map (\<lambda>(k, old). if k = name then (k, vs) else (k, old)) (df_cols df)\<rparr>)
      else Inr (df\<lparr>df_cols := df_cols df @ [(name, vs)]\<rparr>))"

definition df_drop_columns :: "dataframe \<Rightarrow> string \<Rightarrow> exn + dataframe" where
  "df_drop_columns df name =
     (if name \<in> set (df_columns df)
      then Inr (df\<lparr>df_cols := filter (\<lambda>(k, vs). k \<noteq> name) (df_cols df)\<rparr>)
      else Inl (KeyError name))"

text \<open>\<open>df[mask].index\<close>: the labels of the rows the boolean mask selects.\<close>

definition mask_index :: "dataframe \<Rightarrow> bool list \<Rightarrow> nat list" where
  "mask_index df bmask = map fst (filter snd (zip (df_index df) bmask))"

text \<open>\<open>df.drop(labels)\<close>: the rows without these labels; a label the table lacks raises.\<close>

definition keep_rows :: "nat list \<Rightarrow> nat list \<Rightarrow> 'a list \<Rightarrow> 'a list" where
  "keep_rows idx labels xs = map snd (filter (\<lambda>(i, x). i \<notin> set labels) (zip idx xs))"

definition df_drop_rows :: "dataframe \<Rightarrow> nat list \<Rightarrow> exn + dataframe" where
  "df_drop_rows df labels =
     (if set labels \<subseteq> set (df_index df)
      then Inr \<lparr>df_index = keep_rows (df_index df) labels (df_index df),
               df_cols = map (\<lambda>(k, vs). (k, keep_rows (df_index df) labels vs)) (df_cols df)\<rparr>
      else Inl (KeyError ''labels''))"

definition reset_index :: "dataframe \<Rightarrow> dataframe" where
  "reset_index df = df\<lparr>df_index := [0..<length (df_index df)]\<rparr>"

text \<open>
  \<open>column.str.contains(pat)\<close>: the \<open>.str\<close> accessor and the mask need every cell to be a
  string, and the pattern has to compile.
\<close>

fun is_str :: "val \<Rightarrow> bool" where
  "is_str (PyStr s) = True"
| "is_str v = False"

definition str_contains :: "services \<Rightarrow> val list \<Rightarrow> string \<Rightarrow> exn + bool list" where
  "str_contains srv column pat =
     (if \<not> list_all is_str column then Inl OtherException
      else case re_search srv pat of
             None \<Rightarrow> Inl OtherException
           | Some found \<Rightarrow> Inr (map (\<lambda>v. found (py_str v)) column))"

section \<open>The client\<close>

record client =
  token :: string
  stage :: bool
  baseurl :: string
  baseurl_institute :: string
  headers :: "(string \<times> string) list"
  admin_filter :: "string list option"
  ignore_admin :: bool

definition FigshareInstituteAdmin :: "string \<Rightarrow> bool \<Rightarrow> string list option \<Rightarrow> client" where
  "FigshareInstituteAdmin tok stg flt =
     (let base = (if \<not> stg then ''https://api.figshare.com/v2/account/''
                  else ''https://api.figsh.com/v2/account/'')
      in \<lparr>token = tok, stage = stg, baseurl = base,
          baseurl_institute = base @ ''institution/'',
          headers = [(''Content-Type'', ''application/json'')] @
                    (if tok \<noteq> [] then [(''Authorization'', ''token '' @ tok)] else []),
          admin_filter = flt,
          ignore_admin = (flt \<noteq> None)\<rparr>)"

definition endpoint :: "client \<Rightarrow> string \<Rightarrow> bool \<Rightarrow> string" where
  "endpoint self link institute =
     (if institute then baseurl_institute self @ link else baseurl self @ link)"

definition first_page :: "(string \<times> val) list" where
  "first_page = [(''page'', PyInt 1), (''page_size'', PyInt 1000)]"

definition get_articles :: "services \<Rightarrow> client \<Rightarrow> dataframe io" where
  "get_articles srv self =
     bind_io (redata_request (table_response srv) GET (endpoint self ''articles'' True)
                (headers self) (Some first_page))
       (\<lambda>articles. return_io (pd_DataFrame articles))"

definition get_user_articles :: "services \<Rightarrow> client \<Rightarrow> val \<Rightarrow> dataframe io" where
  "get_user_articles srv self account_id =
     bind_io (redata_request (table_response srv) GET (endpoint self ''articles'' False)
                (headers self) (Some (first_page @ [(''impersonate'', account_id)])))
       (\<lambda>user_articles. return_io (pd_DataFrame user_articles))"

definition get_user_projects :: "services \<Rightarrow> client \<Rightarrow> val \<Rightarrow> dataframe io" where
  "get_user_projects srv self account_id =
     bind_io (redata_request (table_response srv) GET (endpoint self ''projects'' False)
                (headers self) (Some (first_page @ [(''impersonate'', account_id)])))
       (\<lambda>user_projects. return_io (pd_DataFrame user_projects))"

definition get_user_collections :: "services \<Rightarrow> client \<Rightarrow> val \<Rightarrow> dataframe io" where
  "get_user_collections srv self account_id =
     bind_io (redata_request (table_response srv) GET (endpoint self ''collections'' False)
                (headers self) (Some (first_page @ [(''impersonate'', account_id)])))
       (\<lambda>user_collections. return_io (pd_DataFrame user_collections))"

definition get_groups :: "services \<Rightarrow> client \<Rightarrow> dataframe io" where
  "get_groups srv self =
     bind_io (redata_request (table_response srv) GET (endpoint self ''groups'' True)
                (headers self) None)
       (\<lambda>groups. return_io (pd_DataFrame groups))"

text \<open>The loop over \<open>admin_filter\<close> that collects the labels of the rows to drop.\<close>

fun drop_index_loop :: "services \<Rightarrow> dataframe \<Rightarrow> string list \<Rightarrow> nat list \<Rightarrow> exn + nat list" where
  "drop_index_loop srv accounts_df [] drop_index = Inr drop_index"
| "drop_index_loop srv accounts_df (ia # rest) drop_index =
     bind_exn (df_getitem accounts_df ''email'') (\<lambda>emails.
     bind_exn (str_contains srv emails ia) (\<lambda>bmask.
       drop_index_loop srv accounts_df rest (drop_index @ mask_index accounts_df bmask)))"

definition get_account_list :: "services \<Rightarrow> client \<Rightarrow> dataframe io" where
  "get_account_list srv self =
     bind_io (redata_request (table_response srv) GET (endpoint self ''accounts'' True)
                (headers self) (Some first_page))
       (\<lambda>accounts.
     bind_io (lift_io (df_drop_columns (pd_DataFrame accounts) ''institution_id''))
       (\<lambda>accounts_df.
          if ignore_admin self then
            bind_io (log_info ''Excluding administrative and test accounts'') (\<lambda>_.
            case admin_filter self of
              None \<Rightarrow> raise_io OtherException
            | Some filters \<Rightarrow>
                bind_io (lift_io (drop_index_loop srv accounts_df filters [])) (\<lambda>drop_index.
                bind_io (lift_io (df_drop_rows accounts_df drop_index)) (\<lambda>kept.
                  return_io (reset_index kept))))
          else return_io accounts_df))"

definition get_account_group_roles ::
    "services \<Rightarrow> client \<Rightarrow> val \<Rightarrow> (string \<times> obj list) list io" where
  "get_account_group_roles srv self account_id =
     redata_request (roles_response srv) GET (endpoint self (''roles/'' @ py_str account_id) True)
       (headers self) None"

definition get_curation_list :: "services \<Rightarrow> client \<Rightarrow> int option \<Rightarrow> dataframe io" where
  "get_curation_list srv self article_id =
     (let params = [(''offset'', PyInt 0), (''limit'', PyInt 1000)] @
                   (case article_id of None \<Rightarrow> [] | Some a \<Rightarrow> [(''article_id'', PyInt a)])
      in bind_io (redata_request (table_response srv) GET (endpoint self ''reviews'' True)
                    (headers self) (Some params))
           (\<lambda>curation_list. return_io (pd_DataFrame curation_list)))"

definition doi_check :: "services \<Rightarrow> client \<Rightarrow> int \<Rightarrow> (bool \<times> val) io" where
  "doi_check srv self article_id =
     bind_io (redata_request (object_response srv) GET
                (endpoint self (''articles/'' @ str_int article_id) False) (headers self) None)
       (\<lambda>article_details.
     bind_io (lift_io (dict_getitem article_details ''doi'')) (\<lambda>doi.
       return_io (py_truthy doi, doi)))"

text \<open>\<open>input(prompt)\<close>: the prompt goes to the console, the operator's line comes back.\<close>

definition input_io :: "string \<Rightarrow> string \<Rightarrow> string io" where
  "input_io prompt typed = (Inr typed, [Prompt prompt])"

definition reserve_doi :: "services \<Rightarrow> client \<Rightarrow> int \<Rightarrow> string \<Rightarrow> val io" where
  "reserve_doi srv self article_id typed =
     (let url = endpoint self (''articles/'' @ str_int article_id @ ''/reserve_doi'') False
      in bind_io (doi_check srv self article_id) (\<lambda>(doi_check, doi_string).
           if doi_check then
             bind_io (log_info ''DOI already reserved! Skipping... '') (\<lambda>_.
               return_io doi_string)
           else
             bind_io (log_info ''PROMPT: DOI reservation has not occurred! Do you wish to reserve?'') (\<lambda>_.
             bind_io (input_io ''PROMPT: Type 'Yes'/'yes'. Anything else will skip : '' typed) (\<lambda>src_input.
             bind_io (log_info (''RESPONSE: '' @ src_input)) (\<lambda>_.
               if py_lower src_input = ''yes'' then
                 bind_io (log_info ''Reserving DOI ... '') (\<lambda>_.
                 bind_io (redata_request (object_response srv) POST url (headers self) None) (\<lambda>response.
                 bind_io (lift_io (dict_getitem response ''doi'')) (\<lambda>doi.
                 bind_io (log_info (''DOI minted : '' @ py_str doi)) (\<lambda>_.
                   return_io doi))))
               else
                 bind_io (log_warning ''Skipping... '') (\<lambda>_.
                   return_io doi_string))))))"

section \<open>The account-detail aggregation\<close>

text \<open>
  The accumulator arrays of \<open>get_account_details\<close>. The three count arrays are
  \<open>np.zeros(n, dtype=np.int)\<close>, arrays of integers (\<open>np.int\<close> is the builtin
  \<open>int\<close> in the numpy releases that have it). The two flag lists are bound only when
  \<open>flag\<close> is true.
\<close>

record accumulators =
  num_articles :: "int list"
  num_projects :: "int list"
  num_collections :: "int list"
  admin_flag :: "string list option"
  reviewer_flag :: "string list option"
  group_assoc :: "string list"

definition set_group_assoc :: "accumulators \<Rightarrow> nat \<Rightarrow> string \<Rightarrow> exn + accumulators" where
  "set_group_assoc acc n key =
     bind_exn (py_setitem (group_assoc acc) n key) (\<lambda>xs. Inr (acc\<lparr>group_assoc := xs\<rparr>))"

definition set_admin_flag :: "accumulators \<Rightarrow> nat \<Rightarrow> exn + accumulators" where
  "set_admin_flag acc n =
     (case admin_flag acc of
        None \<Rightarrow> Inl OtherException
      | Some fl \<Rightarrow> bind_exn (py_setitem fl n ''X'') (\<lambda>xs. Inr (acc\<lparr>admin_flag := Some xs\<rparr>)))"

definition set_reviewer_flag :: "accumulators \<Rightarrow> nat \<Rightarrow> exn + accumulators" where
  "set_reviewer_flag acc n =
     (case reviewer_flag acc of
        None \<Rightarrow> Inl OtherException
      | Some fl \<Rightarrow> bind_exn (py_setitem fl n ''X'') (\<lambda>xs. Inr (acc\<lparr>reviewer_flag := Some xs\<rparr>)))"

text \<open>The body of the inner loop: one role record \<open>t_dict\<close> found under \<open>key\<close>.\<close>

definition scan_record :: "bool \<Rightarrow> nat \<Rightarrow> string \<Rightarrow> obj \<Rightarrow> accumulators \<Rightarrow> exn + accumulators" where
  "scan_record flag n key t_dict acc =
     bind_exn (dict_getitem t_dict ''id'') (\<lambda>rid.
     bind_exn (if rid = PyInt 11 then set_group_assoc acc n key else Inr acc) (\<lambda>acc1.
       if flag then
         bind_exn (if rid = PyInt 2 then set_admin_flag acc1 n else Inr acc1) (\<lambda>acc2.
           if rid = PyInt 49 then set_reviewer_flag acc2 n else Inr acc2)
       else Inr acc1))"

fun scan_records :: "bool \<Rightarrow> nat \<Rightarrow> string \<Rightarrow> obj list \<Rightarrow> accumulators \<Rightarrow> exn + accumulators" where
  "scan_records flag n key [] acc = Inr acc"
| "scan_records flag n key (t_dict # rest) acc =
     bind_exn (scan_record flag n key t_dict acc) (scan_records flag n key rest)"

fun scan_roles :: "bool \<Rightarrow> nat \<Rightarrow> (string \<times> obj list) list \<Rightarrow> accumulators \<Rightarrow> exn + accumulators" where
  "scan_roles flag n [] acc = Inr acc"
| "scan_roles flag n ((key, records) # rest) acc =
     bind_exn (scan_records flag n key records acc) (scan_roles flag n rest)"

text \<open>
  One \<open>try: ... except HTTPError: self.log.warning(...)\<close> block of the loop: the fetched
  table's row count goes into slot \<open>n\<close>; an HTTPError leaves the array alone and logs;
  any other exception goes up.
\<close>

definition try_count :: "dataframe io \<Rightarrow> string \<Rightarrow> val \<Rightarrow> int list \<Rightarrow> nat \<Rightarrow> int list io" where
  "try_count fetch what account_id counts n =
     (case fetch of
        (Inr df, ev) \<Rightarrow> (py_setitem counts n (int (df_shape0 df)), ev)
      | (Inl e, ev) \<Rightarrow>
          if e = HTTPError
          then (Inr counts,
                ev @ [Logged WARNING (''Unable to retrieve '' @ what @ '' for : '' @ py_str account_id)])
          else (Inl e, ev))"

text \<open>The body of the loop over the accounts.\<close>

definition account_step ::
    "services \<Rightarrow> client \<Rightarrow> bool \<Rightarrow> nat \<Rightarrow> val \<Rightarrow> accumulators \<Rightarrow> accumulators io" where
  "account_step srv self flag n account_id acc =
     bind_io (get_account_group_roles srv self account_id) (\<lambda>roles.
     bind_io (try_count (get_user_articles srv self account_id) ''articles'' account_id
                (num_articles acc) n) (\<lambda>arts.
     bind_io (try_count (get_user_projects srv self account_id) ''projects'' account_id
                (num_projects acc) n) (\<lambda>projs.
     bind_io (try_count (get_user_collections srv self account_id) ''collections'' account_id
                (num_collections acc) n) (\<lambda>colls.
       lift_io (scan_roles flag n roles
         (acc\<lparr>num_articles := arts, num_projects := projs, num_collections := colls\<rparr>))))))"

fun accounts_loop ::
    "services \<Rightarrow> client \<Rightarrow> bool \<Rightarrow> (nat \<times> val) list \<Rightarrow> accumulators \<Rightarrow> accumulators io" where
  "accounts_loop srv self flag [] acc = return_io acc"
| "accounts_loop srv self flag ((n, account_id) # rest) acc =
     bind_io (account_step srv self flag n account_id acc) (accounts_loop srv self flag rest)"

text \<open>One round of the loop over the groups: the comprehension replacing in every entry.\<close>

definition replace_in_all :: "string list \<Rightarrow> val \<Rightarrow> val \<Rightarrow> exn + string list" where
  "replace_in_all assoc group_id group_name =
     (if assoc = [] then Inr []
      else case group_name of
             PyStr name \<Rightarrow> Inr (map (\<lambda>sub. py_replace sub (py_str group_id) name) assoc)
           | _ \<Rightarrow> Inl OtherException)"

fun groups_loop :: "(val \<times> val) list \<Rightarrow> string list \<Rightarrow> string list io" where
  "groups_loop [] assoc = return_io assoc"
| "groups_loop ((group_id, group_name) # rest) assoc =
     bind_io (log_info (py_str group_id @ '' - '' @ py_str group_name)) (\<lambda>_.
     bind_io (lift_io (replace_in_all assoc group_id group_name)) (groups_loop rest))"

definition attach_flags :: "bool \<Rightarrow> accumulators \<Rightarrow> dataframe \<Rightarrow> exn + dataframe" where
  "attach_flags flag acc df =
     (if flag then
        (case admin_flag acc of
           None \<Rightarrow> Inl OtherException
         | Some af \<Rightarrow>
             bind_exn (df_setitem df ''Admin'' (map PyStr af)) (\<lambda>df1.
               case reviewer_flag acc of
                 None \<Rightarrow> Inl OtherException
               | Some rf \<Rightarrow> df_setitem df1 ''Reviewer'' (map PyStr rf)))
      else Inr df)"

definition get_account_details :: "services \<Rightarrow> client \<Rightarrow> bool \<Rightarrow> dataframe io" where
  "get_account_details srv self flag =
     bind_io (get_account_list srv self) (\<lambda>accounts_df.
     let n_accounts = df_shape0 accounts_df in
     bind_io (get_groups srv self) (\<lambda>groups_df.
     let acc0 = \<lparr>num_articles = replicate n_accounts 0,
                 num_projects = replicate n_accounts 0,
                 num_collections = replicate n_accounts 0,
                 admin_flag = (if flag then Some (replicate n_accounts []) else None),
                 reviewer_flag = (if flag then Some (replicate n_accounts []) else None),
                 group_assoc = replicate n_accounts ''N/A''\<rparr> in
     bind_io (lift_io (df_getitem accounts_df ''id'')) (\<lambda>ids.
     bind_io (accounts_loop srv self flag (zip [0..<n_accounts] ids) acc0) (\<lambda>acc.
     bind_io (lift_io (df_setitem accounts_df ''Articles'' (map PyInt (num_articles acc)))) (\<lambda>df1.
     bind_io (lift_io (df_setitem df1 ''Projects'' (map PyInt (num_projects acc)))) (\<lambda>df2.
     bind_io (lift_io (df_setitem df2 ''Collections'' (map PyInt (num_collections acc)))) (\<lambda>df3.
     bind_io (lift_io (attach_flags flag acc df3)) (\<lambda>df4.
     bind_io (lift_io (df_getitem groups_df ''id'')) (\<lambda>group_ids.
     bind_io (lift_io (df_getitem groups_df ''name'')) (\<lambda>group_names.
     bind_io (groups_loop (zip group_ids group_names) (group_assoc acc)) (\<lambda>assoc.
       lift_io (df_setitem df4 ''Group'' (map PyStr assoc)))))))))))))"

section \<open>Notions used in the statements\<close>

subsection \<open>Requests\<close>

text \<open>
  The requests among the events of a run, and the requests the accessors send.
\<close>

fun requests_of :: "event list \<Rightarrow> request list" where
  "requests_of [] = []"
| "requests_of (Request r # evs) = r # requests_of evs"
| "requests_of (Logged l msg # evs) = requests_of evs"
| "requests_of (Prompt p # evs) = requests_of evs"

definition carries_first_page :: "request \<Rightarrow> bool" where
  "carries_first_page r =
     (req_method r = GET \<and>
      (case req_params r of
         None \<Rightarrow> False
       | Some ps \<Rightarrow> map_of ps ''page'' = Some (PyInt 1) \<and> map_of ps ''page_size'' = Some (PyInt 1000)))"

definition is_post :: "request \<Rightarrow> bool" where
  "is_post r = (req_method r = POST)"

definition institute_request :: "client \<Rightarrow> string \<Rightarrow> (string \<times> val) list option \<Rightarrow> request" where
  "institute_request self link params =
     \<lparr>req_method = GET, req_url = baseurl_institute self @ link, req_headers = headers self,
      req_params = params\<rparr>"

definition user_request :: "client \<Rightarrow> string \<Rightarrow> val \<Rightarrow> request" where
  "user_request self link account_id =
     \<lparr>req_method = GET, req_url = baseurl self @ link, req_headers = headers self,
      req_params = Some [(''page'', PyInt 1), (''page_size'', PyInt 1000),
                         (''impersonate'', account_id)]\<rparr>"

definition article_request :: "client \<Rightarrow> int \<Rightarrow> request" where
  "article_request self article_id =
     \<lparr>req_method = GET, req_url = baseurl self @ ''articles/'' @ str_int article_id,
      req_headers = headers self, req_params = None\<rparr>"

definition reserve_request :: "client \<Rightarrow> int \<Rightarrow> request" where
  "reserve_request self article_id =
     \<lparr>req_method = POST,
      req_url = baseurl self @ ''articles/'' @ str_int article_id @ ''/reserve_doi'',
      req_headers = headers self, req_params = None\<rparr>"

definition accounts_request :: "client \<Rightarrow> request" where
  "accounts_request self =
     institute_request self ''accounts'' (Some [(''page'', PyInt 1), (''page_size'', PyInt 1000)])"

definition groups_request :: "client \<Rightarrow> request" where
  "groups_request self = institute_request self ''groups'' None"

definition roles_request :: "client \<Rightarrow> val \<Rightarrow> request" where
  "roles_request self account_id = institute_request self (''roles/'' @ py_str account_id) None"

subsection \<open>The account list\<close>

text \<open>
  The filter entries in force, whether one of them finds an email, and the entries of a
  column that survive the filter. \<open>aligned\<close> says that every column has one cell per
  row label.
\<close>

definition active_filters :: "client \<Rightarrow> string list" where
  "active_filters self =
     (if ignore_admin self then (case admin_filter self of None \<Rightarrow> [] | Some fs \<Rightarrow> fs) else [])"

definition email_matches :: "services \<Rightarrow> string list \<Rightarrow> val \<Rightarrow> bool" where
  "email_matches srv filters email =
     list_ex (\<lambda>ia. case re_search srv ia of None \<Rightarrow> False | Some found \<Rightarrow> found (py_str email))
       filters"

definition surviving :: "services \<Rightarrow> string list \<Rightarrow> val list \<Rightarrow> 'a list \<Rightarrow> 'a list" where
  "surviving srv filters emails xs =
     map snd (filter (\<lambda>(email, x). \<not> email_matches srv filters email) (zip emails xs))"

definition aligned :: "dataframe \<Rightarrow> bool" where
  "aligned df = list_all (\<lambda>(k, vs). length vs = length (df_index df)) (df_cols df)"

subsection \<open>One account of the aggregation\<close>

text \<open>
  What the loop body makes of slot \<open>n\<close> of each array, read off the answers the
  service gives for that account: the role structure fetched, its role ids in scan order
  (each with the key it stands under), the keys of the id-11 records, and the new value of
  a count, a group association and a flag marker given the old one.
\<close>

definition roles_of :: "services \<Rightarrow> client \<Rightarrow> val \<Rightarrow> (string \<times> obj list) list" where
  "roles_of srv self account_id =
     (case roles_response srv (roles_request self account_id) of
        Inl e \<Rightarrow> [] | Inr roles \<Rightarrow> roles)"

definition role_ids :: "(string \<times> obj list) list \<Rightarrow> (string \<times> val) list" where
  "role_ids roles = concat (map (\<lambda>(key, records). map (\<lambda>t. (key, cell_of t ''id'')) records) roles)"

definition curator_keys :: "(string \<times> obj list) list \<Rightarrow> string list" where
  "curator_keys roles = map fst (filter (\<lambda>(key, rid). rid = PyInt 11) (role_ids roles))"

definition has_role :: "int \<Rightarrow> (string \<times> obj list) list \<Rightarrow> bool" where
  "has_role k roles = list_ex (\<lambda>(key, rid). rid = PyInt k) (role_ids roles)"

definition count_after :: "exn + obj list \<Rightarrow> int \<Rightarrow> int" where
  "count_after r old = (case r of Inl e \<Rightarrow> old | Inr rows \<Rightarrow> int (length rows))"

definition fetched_count :: "exn + obj list \<Rightarrow> int" where
  "fetched_count r = count_after r 0"

definition assoc_after :: "(string \<times> obj list) list \<Rightarrow> string \<Rightarrow> string" where
  "assoc_after roles old = (if curator_keys roles = [] then old else last (curator_keys roles))"

definition mark_after :: "int \<Rightarrow> (string \<times> obj list) list \<Rightarrow> string \<Rightarrow> string" where
  "mark_after k roles old = (if has_role k roles then ''X'' else old)"

text \<open>
  The accumulators after one role record and after one whole account, and the size the
  arrays keep throughout.
\<close>

definition record_outcome :: "bool \<Rightarrow> nat \<Rightarrow> string \<Rightarrow> val \<Rightarrow> accumulators \<Rightarrow> accumulators" where
  "record_outcome flag n key rid acc =
     acc\<lparr>group_assoc := (group_assoc acc)[n := (if rid = PyInt 11 then key else group_assoc acc ! n)],
         admin_flag := (if flag
           then map_option (\<lambda>fl. fl[n := (if rid = PyInt 2 then ''X'' else fl ! n)]) (admin_flag acc)
           else admin_flag acc),
         reviewer_flag := (if flag
           then map_option (\<lambda>fl. fl[n := (if rid = PyInt 49 then ''X'' else fl ! n)]) (reviewer_flag acc)
           else reviewer_flag acc)\<rparr>"

definition step_outcome ::
    "services \<Rightarrow> client \<Rightarrow> bool \<Rightarrow> nat \<Rightarrow> val \<Rightarrow> accumulators \<Rightarrow> accumulators" where
  "step_outcome srv self flag n a acc =
     \<lparr>num_articles = (num_articles acc)
        [n := count_after (table_response srv (user_request self ''articles'' a)) (num_articles acc ! n)],
      num_projects = (num_projects acc)
        [n := count_after (table_response srv (user_request self ''projects'' a)) (num_projects acc ! n)],
      num_collections = (num_collections acc)
        [n := count_after (table_response srv (user_request self ''collections'' a)) (num_collections acc ! n)],
      admin_flag = (if flag
        then map_option (\<lambda>fl. fl[n := mark_after 2 (roles_of srv self a) (fl ! n)]) (admin_flag acc)
        else admin_flag acc),
      reviewer_flag = (if flag
        then map_option (\<lambda>fl. fl[n := mark_after 49 (roles_of srv self a) (fl ! n)]) (reviewer_flag acc)
        else reviewer_flag acc),
      group_assoc = (group_assoc acc)[n := assoc_after (roles_of srv self a) (group_assoc acc ! n)]\<rparr>"

definition sized :: "nat \<Rightarrow> bool \<Rightarrow> accumulators \<Rightarrow> bool" where
  "sized N flag acc =
     (length (num_articles acc) = N \<and> length (num_projects acc) = N
      \<and> length (num_collections acc) = N \<and> length (group_assoc acc) = N
      \<and> (if flag
          then (case admin_flag acc of None \<Rightarrow> False | Some fl \<Rightarrow> length fl = N)
             \<and> (case reviewer_flag acc of None \<Rightarrow> False | Some fl \<Rightarrow> length fl = N)
          else True))"

text \<open>
  A fetch whose failure the loop tolerates answers or raises an HTTP error; a role
  structure is readable when it was fetched and each of its records has an id. The warning
  a guarded fetch logs.
\<close>

definition tolerated :: "exn + obj list \<Rightarrow> bool" where
  "tolerated r = (case r of Inl e \<Rightarrow> e = HTTPError | Inr rows \<Rightarrow> True)"

definition roles_readable :: "services \<Rightarrow> client \<Rightarrow> val \<Rightarrow> bool" where
  "roles_readable srv self a =
     (case roles_response srv (roles_request self a) of
        Inl e \<Rightarrow> False
      | Inr roles \<Rightarrow> list_all (\<lambda>(key, records). list_all (\<lambda>t. map_of t ''id'' \<noteq> None) records) roles)"

definition fetch_warning :: "string \<Rightarrow> val \<Rightarrow> event" where
  "fetch_warning what account_id =
     Logged WARNING (''Unable to retrieve '' @ what @ '' for : '' @ py_str account_id)"

subsection \<open>The aggregated table\<close>

text \<open>
  \<open>resolve_groups\<close> is the group loop on one entry: one replacement per group, in
  group-list order. \<open>set_column\<close> is the column assignment without its length check.
  \<open>details_table\<close> is the table the aggregation is expected to return, and
  \<open>new_columns\<close> the names it attaches.
\<close>

definition resolve_groups :: "(val \<times> val) list \<Rightarrow> string \<Rightarrow> string" where
  "resolve_groups groups s = fold (\<lambda>(g, name) sub. py_replace sub (py_str g) (py_str name)) groups s"

definition set_column :: "dataframe \<Rightarrow> string \<Rightarrow> val list \<Rightarrow> dataframe" where
  "set_column df name vs =
     df\<lparr>df_cols := (if name \<in> set (df_columns df)
                     then map (\<lambda>(k, old). if k = name then (k, vs) else (k, old)) (df_cols df)
                     else df_cols df @ [(name, vs)])\<rparr>"

definition with_flags :: "services \<Rightarrow> client \<Rightarrow> bool \<Rightarrow> val list \<Rightarrow> dataframe \<Rightarrow> dataframe" where
  "with_flags srv self flag ids df =
     (if flag
      then set_column
             (set_column df ''Admin'' (map (\<lambda>a. PyStr (mark_after 2 (roles_of srv self a) [])) ids))
             ''Reviewer'' (map (\<lambda>a. PyStr (mark_after 49 (roles_of srv self a) [])) ids)
      else df)"

definition details_table ::
    "services \<Rightarrow> client \<Rightarrow> bool \<Rightarrow> dataframe \<Rightarrow> val list \<Rightarrow> (val \<times> val) list \<Rightarrow> dataframe" where
  "details_table srv self flag accounts_df ids groups =
     set_column
       (with_flags srv self flag ids
         (set_column
           (set_column
             (set_column accounts_df ''Articles''
               (map (\<lambda>a. PyInt (fetched_count (table_response srv (user_request self ''articles'' a)))) ids))
             ''Projects''
             (map (\<lambda>a. PyInt (fetched_count (table_response srv (user_request self ''projects'' a)))) ids))
           ''Collections''
           (map (\<lambda>a. PyInt (fetched_count (table_response srv (user_request self ''collections'' a)))) ids)))
       ''Group''
       (map (\<lambda>a. PyStr (resolve_groups groups (assoc_after (roles_of srv self a) ''N/A''))) ids)"

definition new_columns :: "bool \<Rightarrow> string list" where
  "new_columns flag =
     [''Articles'', ''Projects'', ''Collections''] @ (if flag then [''Admin'', ''Reviewer''] else []) @
     [''Group'']"

section \<open>Example inputs\<close>

text \<open>
  A service with four accounts, one of them a test account, three groups, and an account
  whose articles, projects and collections cannot be fetched.
\<close>

definition demo_client :: client where
  "demo_client = FigshareInstituteAdmin ''t'' False (Some [''test''])"

definition demo_account :: "int \<Rightarrow> string \<Rightarrow> obj" where
  "demo_account i e = [(''id'', PyInt i), (''email'', PyStr e), (''institution_id'', PyInt 7)]"

definition demo_group :: "int \<Rightarrow> string \<Rightarrow> obj" where
  "demo_group g name = [(''id'', PyInt g), (''name'', PyStr name)]"

definition demo_tables :: "request \<Rightarrow> exn + obj list" where
  "demo_tables r =
     (if req_url r = ''https://api.figshare.com/v2/account/institution/accounts''
      then Inr [demo_account 1 ''a@x.org'', demo_account 2 ''test@x.org'',
                demo_account 3 ''b@x.org'', demo_account 4 ''c@x.org'']
      else if req_url r = ''https://api.figshare.com/v2/account/institution/groups''
      then Inr [demo_group 1 ''A'', demo_group 12 ''B'', demo_group 5 ''Library'']
      else if req_params r = Some (first_page @ [(''impersonate'', PyInt 3)])
      then Inl HTTPError
      else Inr [[(''title'', PyStr ''one'')], [(''title'', PyStr ''two'')]])"

definition demo_roles :: "request \<Rightarrow> exn + (string \<times> obj list) list" where
  "demo_roles r =
     (if req_url r = ''https://api.figshare.com/v2/account/institution/roles/1''
      then Inr [(''12'', [[(''id'', PyInt 11)], [(''id'', PyInt 2)]])]
      else if req_url r = ''https://api.figshare.com/v2/account/institution/roles/3''
      then Inr [(''5'', [[(''id'', PyInt 11)]]), (''1'', [[(''id'', PyInt 49)]])]
      else Inr [])"

definition demo_objects :: "request \<Rightarrow> exn + obj" where
  "demo_objects r =
     (if req_method r = POST then Inr [(''doi'', PyStr ''10.x/new'')]
      else if req_url r = ''https://api.figshare.com/v2/account/articles/5''
      then Inr [(''doi'', PyStr [])]
      else if req_url r = ''https://api.figshare.com/v2/account/articles/6''
      then Inr [(''doi'', PyStr ''10.x/abc'')]
      else Inr [(''doi'', PyNone)])"

definition demo_services :: services where
  "demo_services =
     \<lparr>table_response = demo_tables, roles_response = demo_roles,
      object_response = demo_objects, re_engine = (\<lambda>pat. None)\<rparr>"

text \<open>
  The account list this service gives the client, and the tables the aggregation makes
  of it with and without flags.
\<close>

definition demo_accounts_df :: dataframe where
  "demo_accounts_df =
     \<lparr>df_index = [0, 1, 2],
      df_cols = [(''id'', [PyInt 1, PyInt 3, PyInt 4]),
                 (''email'', [PyStr ''a@x.org'', PyStr ''b@x.org'', PyStr ''c@x.org''])]\<rparr>"

definition demo_counts :: "(string \<times> val list) list" where
  "demo_counts =
     [(''Articles'', [PyInt 2, PyInt 0, PyInt 2]),
      (''Projects'', [PyInt 2, PyInt 0, PyInt 2]),
      (''Collections'', [PyInt 2, PyInt 0, PyInt 2])]"

definition demo_table :: dataframe where
  "demo_table =
     \<lparr>df_index = [0, 1, 2],
      df_cols = df_cols demo_accounts_df @ demo_counts @
        [(''Admin'', [PyStr ''X'', PyStr [], PyStr []]),
         (''Reviewer'', [PyStr [], PyStr ''X'', PyStr []]),
         (''Group'', [PyStr ''A2'', PyStr ''Library'', PyStr ''N/A''])]\<rparr>"

definition demo_table_unflagged :: dataframe where
  "demo_table_unflagged =
     \<lparr>df_index = [0, 1, 2],
      df_cols = df_cols demo_accounts_df @ demo_counts @
        [(''Group'', [PyStr ''A2'', PyStr ''Library'', PyStr ''N/A''])]\<rparr>"

text \<open>The same service, with the role structure of account 3 unavailable.\<close>

definition roles_down_services :: services where
  "roles_down_services =
     demo_services\<lparr>roles_response := (\<lambda>r.
       if req_url r = ''https://api.figshare.com/v2/account/institution/roles/3''
       then Inl HTTPError else demo_roles r)\<rparr>"


text \<open>
  The same service, with id-11 records under two keys of the role structure of account 4,
  and the table the aggregation makes of its account list.
\<close>

definition two_keys_services :: services where
  "two_keys_services =
     demo_services\<lparr>roles_response := (\<lambda>r.
       if req_url r = ''https://api.figshare.com/v2/account/institution/roles/4''
       then Inr [(''1'', [[(''id'', PyInt 11)]]), (''5'', [[(''id'', PyInt 11)]])]
       else demo_roles r)\<rparr>"

definition two_keys_table :: dataframe where
  "two_keys_table =
     \<lparr>df_index = [0, 1, 2],
      df_cols = df_cols demo_accounts_df @ demo_counts @
        [(''Admin'', [PyStr ''X'', PyStr [], PyStr []]),
         (''Reviewer'', [PyStr [], PyStr ''X'', PyStr []]),
         (''Group'', [PyStr ''A2'', PyStr ''Library'', PyStr ''Library''])]\<rparr>"

text \<open>
  A service whose one account already carries fields named Group and Articles, the
  account list it gives the client, and the table the aggregation makes of it.
\<close>

definition labelled_account :: obj where
  "labelled_account =
     demo_account 4 ''c@x.org'' @ [(''Group'', PyStr ''Staff''), (''Articles'', PyInt 9)]"

definition labelled_services :: services where
  "labelled_services =
     demo_services\<lparr>table_response := (\<lambda>r.
       if req_url r = ''https://api.figshare.com/v2/account/institution/accounts''
       then Inr [labelled_account] else demo_tables r)\<rparr>"

definition labelled_accounts_df :: dataframe where
  "labelled_accounts_df =
     \<lparr>df_index = [0],
      df_cols = [(''id'', [PyInt 4]), (''email'', [PyStr ''c@x.org'']),
                 (''Group'', [PyStr ''Staff'']), (''Articles'', [PyInt 9])]\<rparr>"

definition labelled_table :: dataframe where
  "labelled_table =
     \<lparr>df_index = [0],
      df_cols = [(''id'', [PyInt 4]), (''email'', [PyStr ''c@x.org'']),
                 (''Group'', [PyStr ''N/A'']), (''Articles'', [PyInt 2]),
                 (''Projects'', [PyInt 2]), (''Collections'', [PyInt 2]),
                 (''Admin'', [PyStr []]), (''Reviewer'', [PyStr []])]\<rparr>"

section \<open>Sequencing and the transport\<close>


lemma bind_io_Inl [simp]: "bind_io (Inl e, ev) f = (Inl e, ev)"
  by (simp add: bind_io_def)

lemma bind_io_Inr [simp]: "bind_io (Inr x, ev) f = (fst (f x), ev @ snd (f x))"
  by (simp add: bind_io_def split: prod.splits)

lemma fst_bind_io: "fst (bind_io m f) = (case fst m of Inl e \<Rightarrow> Inl e | Inr x \<Rightarrow> fst (f x))"
  by (cases m) (auto simp: bind_io_def split: sum.splits prod.splits)

lemma snd_bind_io:
  "snd (bind_io m f) = (case fst m of Inl e \<Rightarrow> snd m | Inr x \<Rightarrow> snd m @ snd (f x))"
  by (cases m) (auto simp: bind_io_def split: sum.splits prod.splits)

lemma bind_exn_simps [simp]:
  "bind_exn (Inl e) f = Inl e" "bind_exn (Inr x) f = f x"
  by (simp_all add: bind_exn_def)

lemma io_simps [simp]:
  "return_io x = (Inr x, [])" "raise_io e = (Inl e, [])" "lift_io r = (r, [])"
  "log_info msg = (Inr (), [Logged INFO msg])" "log_warning msg = (Inr (), [Logged WARNING msg])"
  by (simp_all add: return_io_def raise_io_def lift_io_def log_info_def log_warning_def)

lemma requests_of_append [simp]: "requests_of (xs @ ys) = requests_of xs @ requests_of ys"
  by (induction xs rule: requests_of.induct) auto

lemma redata_request_simp:
  "redata_request respond m url hdrs params =
     (respond \<lparr>req_method = m, req_url = url, req_headers = hdrs, req_params = params\<rparr>,
      [Request \<lparr>req_method = m, req_url = url, req_headers = hdrs, req_params = params\<rparr>])"
  by (simp add: redata_request_def Let_def)

lemma bind_io_pair: "bind_io (r, ev) f = (case r of Inl e \<Rightarrow> (Inl e, ev) | Inr x \<Rightarrow> (fst (f x), ev @ snd (f x)))"
  by (cases r) auto

lemma table_accessor:
  "bind_io (redata_request respond m url hdrs params) (\<lambda>x. (Inr (g x), [])) =
     (map_sum id g (respond \<lparr>req_method = m, req_url = url, req_headers = hdrs, req_params = params\<rparr>),
      [Request \<lparr>req_method = m, req_url = url, req_headers = hdrs, req_params = params\<rparr>])"
  by (simp add: redata_request_simp bind_io_pair split: sum.splits)

lemma get_account_list_requests:
  "requests_of (snd (get_account_list srv self)) = [institute_request self ''accounts'' (Some first_page)]"
  unfolding get_account_list_def redata_request_simp institute_request_def endpoint_def
  by (auto simp: bind_io_pair split: sum.splits option.splits)

text \<open>
  C9 (amended). Each of the seven resource accessors hands the transport exactly one
  request, a GET, and nothing further, so no page beyond the first is ever fetched. The
  pagination it carries differs: articles, user articles, user projects, user collections
  and the account list send page 1 with page size 1000 (the user accessors add the
  impersonated account); the group list sends no parameters at all; the curation list
  sends offset 0 and limit 1000, and the article id when one is given.
\<close>

theorem accessors_single_get:
  "requests_of (snd (get_articles srv self)) =
     [institute_request self ''articles'' (Some [(''page'', PyInt 1), (''page_size'', PyInt 1000)])]
   \<and> requests_of (snd (get_user_articles srv self account_id)) = [user_request self ''articles'' account_id]
   \<and> requests_of (snd (get_user_projects srv self account_id)) = [user_request self ''projects'' account_id]
   \<and> requests_of (snd (get_user_collections srv self account_id)) = [user_request self ''collections'' account_id]
   \<and> requests_of (snd (get_account_list srv self)) =
     [institute_request self ''accounts'' (Some [(''page'', PyInt 1), (''page_size'', PyInt 1000)])]
   \<and> requests_of (snd (get_groups srv self)) = [institute_request self ''groups'' None]
   \<and> requests_of (snd (get_curation_list srv self article_id)) =
     [institute_request self ''reviews''
        (Some ([(''offset'', PyInt 0), (''limit'', PyInt 1000)] @
               (case article_id of None \<Rightarrow> [] | Some a \<Rightarrow> [(''article_id'', PyInt a)])))]"
  using get_account_list_requests [of srv self]
  by (simp add: get_articles_def get_user_articles_def get_user_projects_def
      get_user_collections_def get_groups_def get_curation_list_def table_accessor
      institute_request_def user_request_def endpoint_def first_page_def Let_def)

theorem accessors_single_get_witness:
  "requests_of (snd (get_groups demo_services demo_client)) =
     [\<lparr>req_method = GET, req_url = ''https://api.figshare.com/v2/account/institution/groups'',
       req_headers = [(''Content-Type'', ''application/json''), (''Authorization'', ''token t'')],
       req_params = None\<rparr>]
   \<and> requests_of (snd (get_curation_list demo_services demo_client (Some 9))) =
     [\<lparr>req_method = GET, req_url = ''https://api.figshare.com/v2/account/institution/reviews'',
       req_headers = [(''Content-Type'', ''application/json''), (''Authorization'', ''token t'')],
       req_params = Some [(''offset'', PyInt 0), (''limit'', PyInt 1000), (''article_id'', PyInt 9)]\<rparr>]
   \<and> requests_of (snd (get_user_projects demo_services demo_client (PyInt 3))) =
     [\<lparr>req_method = GET, req_url = ''https://api.figshare.com/v2/account/projects'',
       req_headers = [(''Content-Type'', ''application/json''), (''Authorization'', ''token t'')],
       req_params = Some [(''page'', PyInt 1), (''page_size'', PyInt 1000),
                          (''impersonate'', PyInt 3)]\<rparr>]"
  using accessors_single_get [of demo_services demo_client "PyInt 3" "Some 9"]
  by (simp add: institute_request_def user_request_def demo_client_def FigshareInstituteAdmin_def)

text \<open>
  C9 as stated fails on the group list: its one request carries no page and no page size.
\<close>

theorem get_groups_unpaginated:
  "\<not> list_all carries_first_page (requests_of (snd (get_groups demo_services demo_client)))"
  by (simp add: get_groups_def table_accessor carries_first_page_def)


lemma doi_check_eq:
  "doi_check srv self article_id =
     (case object_response srv (article_request self article_id) of
        Inl e \<Rightarrow> Inl e
      | Inr article_details \<Rightarrow>
          (case map_of article_details ''doi'' of
             None \<Rightarrow> Inl (KeyError ''doi'')
           | Some doi \<Rightarrow> Inr (py_truthy doi, doi)),
      [Request (article_request self article_id)])"
  by (simp add: doi_check_def redata_request_simp bind_io_pair article_request_def endpoint_def
      dict_getitem_def split: sum.splits option.splits)

text \<open>
  C6 (amended). \<open>doi_check\<close> returns the truth value of the article's DOI field
  together with the field itself: \<open>(True, d)\<close> for a non-empty string \<open>d\<close>,
  \<open>(False, None)\<close> for a null field, and \<open>(False, '')\<close>, the empty string and
  not null, for an empty field.
\<close>

theorem doi_check_result:
  assumes "object_response srv (article_request self article_id) = Inr article_details"
  shows "(map_of article_details ''doi'' = Some (PyStr (c # cs)) \<longrightarrow>
            fst (doi_check srv self article_id) = Inr (True, PyStr (c # cs)))
       \<and> (map_of article_details ''doi'' = Some PyNone \<longrightarrow>
            fst (doi_check srv self article_id) = Inr (False, PyNone))
       \<and> (map_of article_details ''doi'' = Some (PyStr []) \<longrightarrow>
            fst (doi_check srv self article_id) = Inr (False, PyStr []))"
  using assms by (simp add: doi_check_eq)

lemma demo_article_requests:
  "article_request demo_client 5 =
     \<lparr>req_method = GET, req_url = ''https://api.figshare.com/v2/account/articles/5'',
      req_headers = [(''Content-Type'', ''application/json''), (''Authorization'', ''token t'')],
      req_params = None\<rparr>"
  "article_request demo_client 6 =
     \<lparr>req_method = GET, req_url = ''https://api.figshare.com/v2/account/articles/6'',
      req_headers = [(''Content-Type'', ''application/json''), (''Authorization'', ''token t'')],
      req_params = None\<rparr>"
  "article_request demo_client 7 =
     \<lparr>req_method = GET, req_url = ''https://api.figshare.com/v2/account/articles/7'',
      req_headers = [(''Content-Type'', ''application/json''), (''Authorization'', ''token t'')],
      req_params = None\<rparr>"
  by (simp_all add: article_request_def demo_client_def FigshareInstituteAdmin_def str_int_def
      str_nat.simps digit_char_def)

lemma demo_articles:
  "object_response demo_services (article_request demo_client 5) = Inr [(''doi'', PyStr [])]"
  "object_response demo_services (article_request demo_client 6) = Inr [(''doi'', PyStr ''10.x/abc'')]"
  "object_response demo_services (article_request demo_client 7) = Inr [(''doi'', PyNone)]"
  by (simp_all add: demo_article_requests demo_services_def demo_objects_def)

theorem doi_check_result_witness:
  "fst (doi_check demo_services demo_client 6) = Inr (True, PyStr ''10.x/abc'')
   \<and> fst (doi_check demo_services demo_client 7) = Inr (False, PyNone)
   \<and> fst (doi_check demo_services demo_client 5) = Inr (False, PyStr [])"
  using doi_check_result [OF demo_articles(2), of "CHR ''1''" "''0.x/abc''"]
    doi_check_result [OF demo_articles(3)] doi_check_result [OF demo_articles(1)]
  by simp

text \<open>C6 as stated fails on an empty DOI field: the second component is not null.\<close>

theorem doi_check_empty_not_null:
  "object_response demo_services (article_request demo_client 5) = Inr [(''doi'', PyStr [])]
   \<and> fst (doi_check demo_services demo_client 5) \<noteq> Inr (False, PyNone)"
  by (simp add: doi_check_eq demo_articles)

lemma reserve_doi_reserved:
  "fst (doi_check srv self article_id) = Inr (True, existing) \<Longrightarrow>
   reserve_doi srv self article_id typed =
     (Inr existing, [Request (article_request self article_id),
                     Logged INFO ''DOI already reserved! Skipping... ''])"
  by (cases "doi_check srv self article_id")
     (auto simp: reserve_doi_def Let_def doi_check_eq split: sum.splits option.splits)

lemma reserve_doi_declined:
  "fst (doi_check srv self article_id) = Inr (False, prior) \<Longrightarrow> py_lower typed \<noteq> ''yes'' \<Longrightarrow>
   reserve_doi srv self article_id typed =
     (Inr prior, [Request (article_request self article_id),
        Logged INFO ''PROMPT: DOI reservation has not occurred! Do you wish to reserve?'',
        Prompt ''PROMPT: Type 'Yes'/'yes'. Anything else will skip : '',
        Logged INFO (''RESPONSE: '' @ typed),
        Logged WARNING ''Skipping... ''])"
  by (cases "doi_check srv self article_id")
     (auto simp: reserve_doi_def Let_def doi_check_eq input_io_def split: sum.splits option.splits)

lemma reserve_doi_accepted:
  "fst (doi_check srv self article_id) = Inr (False, prior) \<Longrightarrow> py_lower typed = ''yes'' \<Longrightarrow>
   requests_of (snd (reserve_doi srv self article_id typed)) =
     [article_request self article_id, reserve_request self article_id]"
  by (cases "doi_check srv self article_id")
     (auto simp: reserve_doi_def Let_def doi_check_eq input_io_def redata_request_simp
        bind_io_pair reserve_request_def endpoint_def dict_getitem_def
        split: sum.splits option.splits)

lemma reserve_doi_check_failed:
  "fst (doi_check srv self article_id) = Inl e \<Longrightarrow>
   reserve_doi srv self article_id typed = (Inl e, [Request (article_request self article_id)])"
  by (cases "doi_check srv self article_id")
     (auto simp: reserve_doi_def Let_def doi_check_eq split: sum.splits option.splits)

text \<open>
  C3 (amended). \<open>reserve_doi\<close> sends the reservation POST if and only if the DOI check
  reports the article unreserved and the operator's input, lowercased, is exactly
  \<open>yes\<close>. On a reserved article it returns the existing DOI. On any other input it
  logs the warning and returns the prior DOI as the check reported it, which is null for
  a null field and the empty string for an empty one.
\<close>

theorem reserve_doi_post_iff:
  "(list_ex is_post (requests_of (snd (reserve_doi srv self article_id typed))) \<longleftrightarrow>
      (\<exists>doi. fst (doi_check srv self article_id) = Inr (False, doi)) \<and> py_lower typed = ''yes'')
   \<and> (fst (doi_check srv self article_id) = Inr (True, existing) \<longrightarrow>
        fst (reserve_doi srv self article_id typed) = Inr existing)
   \<and> (fst (doi_check srv self article_id) = Inr (False, prior) \<and> py_lower typed \<noteq> ''yes'' \<longrightarrow>
        fst (reserve_doi srv self article_id typed) = Inr prior
        \<and> Logged WARNING ''Skipping... '' \<in> set (snd (reserve_doi srv self article_id typed)))"
proof -
  have post: "list_ex is_post (requests_of (snd (reserve_doi srv self article_id typed))) \<longleftrightarrow>
      (\<exists>doi. fst (doi_check srv self article_id) = Inr (False, doi)) \<and> py_lower typed = ''yes''"
  proof (cases "fst (doi_check srv self article_id)")
    case (Inl e)
    then show ?thesis
      by (simp add: reserve_doi_check_failed is_post_def article_request_def)
  next
    case (Inr p)
    obtain reserved doi where p: "p = (reserved, doi)" by (cases p)
    show ?thesis
    proof (cases reserved)
      case True
      with Inr p show ?thesis
        by (simp add: reserve_doi_reserved is_post_def article_request_def)
    next
      case False
      with Inr p show ?thesis
        by (cases "py_lower typed = ''yes''")
           (simp_all add: reserve_doi_declined reserve_doi_accepted is_post_def
              article_request_def reserve_request_def)
    qed
  qed
  show ?thesis
    using post by (auto simp: reserve_doi_reserved reserve_doi_declined)
qed

theorem reserve_doi_post_iff_witness:
  "list_ex is_post (requests_of (snd (reserve_doi demo_services demo_client 7 ''Yes'')))
   \<and> \<not> list_ex is_post (requests_of (snd (reserve_doi demo_services demo_client 7 ''no'')))
   \<and> \<not> list_ex is_post (requests_of (snd (reserve_doi demo_services demo_client 6 ''yes'')))
   \<and> fst (reserve_doi demo_services demo_client 6 ''yes'') = Inr (PyStr ''10.x/abc'')
   \<and> fst (reserve_doi demo_services demo_client 7 '''') = Inr PyNone
   \<and> Logged WARNING ''Skipping... '' \<in> set (snd (reserve_doi demo_services demo_client 7 ''''))"
  using reserve_doi_post_iff [of demo_services demo_client 7 "''Yes''" PyNone PyNone]
    reserve_doi_post_iff [of demo_services demo_client 7 "''no''" PyNone PyNone]
    reserve_doi_post_iff [of demo_services demo_client 6 "''yes''" "PyStr ''10.x/abc''" PyNone]
    reserve_doi_post_iff [of demo_services demo_client 7 "[]" PyNone PyNone]
  by (simp add: doi_check_eq demo_articles py_lower_def lower_char_def)

text \<open>
  C3 as stated fails where the DOI field is the empty string: a declined reservation
  returns that empty string, not null.
\<close>

theorem reserve_doi_declined_not_null:
  "fst (doi_check demo_services demo_client 5) = Inr (False, PyStr [])
   \<and> fst (reserve_doi demo_services demo_client 5 ''no'') \<noteq> Inr PyNone"
  by (simp add: reserve_doi_declined doi_check_eq demo_articles py_lower_def lower_char_def)

lemma bind_exn_InrE:
  assumes "bind_exn r f = Inr y"
  obtains x where "r = Inr x" "f x = Inr y"
  using assms by (cases r) auto

lemma py_setitem_Inr: "py_setitem xs n v = Inr ys \<longleftrightarrow> n < length xs \<and> ys = xs[n := v]"
  by (auto simp: py_setitem_def)

text \<open>The scan of the role structure, in closed form.\<close>

lemma scan_record_closed:
  assumes "scan_record flag n key t acc = Inr acc'"
  shows "acc' = record_outcome flag n key (cell_of t ''id'') acc"
  using assms
  by (auto simp: scan_record_def dict_getitem_def cell_of_def set_group_assoc_def record_outcome_def
      set_admin_flag_def set_reviewer_flag_def py_setitem_Inr option.map_ident
      elim!: bind_exn_InrE split: option.splits if_splits)

lemma scan_records_closed:
  "scan_records flag n key records acc = Inr acc' \<Longrightarrow>
   acc' = fold (\<lambda>t. record_outcome flag n key (cell_of t ''id'')) records acc"
proof (induction records arbitrary: acc)
  case Nil
  then show ?case by simp
next
  case (Cons t rest)
  from Cons.prems obtain acc1 where
    1: "scan_record flag n key t acc = Inr acc1" and 2: "scan_records flag n key rest acc1 = Inr acc'"
    by (auto elim!: bind_exn_InrE)
  show ?case using Cons.IH [OF 2] scan_record_closed [OF 1] by simp
qed

lemma scan_roles_closed:
  "scan_roles flag n roles acc = Inr acc' \<Longrightarrow>
   acc' = fold (\<lambda>(key, rid). record_outcome flag n key rid) (role_ids roles) acc"
proof (induction roles arbitrary: acc)
  case Nil
  then show ?case by (simp add: role_ids_def)
next
  case (Cons kr rest)
  obtain key records where kr: "kr = (key, records)" by (cases kr)
  from Cons.prems kr obtain acc1 where
    1: "scan_records flag n key records acc = Inr acc1" and 2: "scan_roles flag n rest acc1 = Inr acc'"
    by (auto elim!: bind_exn_InrE)
  have "fold (\<lambda>(key, rid). record_outcome flag n key rid) (map (\<lambda>t. (key, cell_of t ''id'')) records) acc
      = fold (\<lambda>t. record_outcome flag n key (cell_of t ''id'')) records acc"
    by (simp add: fold_map comp_def)
  then show ?case using Cons.IH [OF 2] scan_records_closed [OF 1] kr
    by (simp add: role_ids_def)
qed

text \<open>Folding the record outcomes: each array on its own.\<close>

lemma record_outcome_fields [simp]:
  "num_articles (record_outcome flag n key rid acc) = num_articles acc"
  "num_projects (record_outcome flag n key rid acc) = num_projects acc"
  "num_collections (record_outcome flag n key rid acc) = num_collections acc"
  "group_assoc (record_outcome flag n key rid acc) =
     (group_assoc acc)[n := (if rid = PyInt 11 then key else group_assoc acc ! n)]"
  "admin_flag (record_outcome flag n key rid acc) =
     (if flag then map_option (\<lambda>fl. fl[n := (if rid = PyInt 2 then ''X'' else fl ! n)]) (admin_flag acc)
      else admin_flag acc)"
  "reviewer_flag (record_outcome flag n key rid acc) =
     (if flag then map_option (\<lambda>fl. fl[n := (if rid = PyInt 49 then ''X'' else fl ! n)]) (reviewer_flag acc)
      else reviewer_flag acc)"
  by (simp_all add: record_outcome_def)

lemma fold_outcome_counts:
  "num_articles (fold (\<lambda>(key, rid). record_outcome flag n key rid) ids acc) = num_articles acc
   \<and> num_projects (fold (\<lambda>(key, rid). record_outcome flag n key rid) ids acc) = num_projects acc
   \<and> num_collections (fold (\<lambda>(key, rid). record_outcome flag n key rid) ids acc) = num_collections acc"
  by (induction ids arbitrary: acc) auto

lemma fold_outcome_assoc:
  "group_assoc (fold (\<lambda>(key, rid). record_outcome flag n key rid) ids acc) =
   (group_assoc acc)[n := (let ks = map fst (filter (\<lambda>(key, rid). rid = PyInt 11) ids)
                           in if ks = [] then group_assoc acc ! n else last ks)]"
proof (induction ids arbitrary: acc)
  case Nil
  then show ?case by simp
next
  case (Cons p ids)
  obtain key rid where p: "p = (key, rid)" by (cases p)
  show ?case
  proof (cases "n < length (group_assoc acc)")
    case True
    then show ?thesis using p by (simp add: Cons.IH Let_def)
  next
    case False
    then show ?thesis using p by (simp add: Cons.IH Let_def list_update_beyond)
  qed
qed

lemma fold_outcome_admin:
  "admin_flag (fold (\<lambda>(key, rid). record_outcome flag n key rid) ids acc) =
   (if flag then map_option (\<lambda>fl. fl[n := (if list_ex (\<lambda>(key, rid). rid = PyInt 2) ids then ''X'' else fl ! n)]) (admin_flag acc)
    else admin_flag acc)"
proof (induction ids arbitrary: acc)
  case Nil
  then show ?case by (simp add: option.map_ident)
next
  case (Cons p ids)
  obtain key rid where p: "p = (key, rid)" by (cases p)
  show ?case
  proof (cases "admin_flag acc")
    case None
    then show ?thesis using p by (simp add: Cons.IH)
  next
    case (Some fl)
    then show ?thesis using p
      by (cases "n < length fl") (simp_all add: Cons.IH list_update_beyond)
  qed
qed

lemma fold_outcome_reviewer:
  "reviewer_flag (fold (\<lambda>(key, rid). record_outcome flag n key rid) ids acc) =
   (if flag then map_option (\<lambda>fl. fl[n := (if list_ex (\<lambda>(key, rid). rid = PyInt 49) ids then ''X'' else fl ! n)]) (reviewer_flag acc)
    else reviewer_flag acc)"
proof (induction ids arbitrary: acc)
  case Nil
  then show ?case by (simp add: option.map_ident)
next
  case (Cons p ids)
  obtain key rid where p: "p = (key, rid)" by (cases p)
  show ?case
  proof (cases "reviewer_flag acc")
    case None
    then show ?thesis using p by (simp add: Cons.IH)
  next
    case (Some fl)
    then show ?thesis using p
      by (cases "n < length fl") (simp_all add: Cons.IH list_update_beyond)
  qed
qed

lemma fst_bind_io_InrE:
  assumes "fst (bind_io m f) = Inr y"
  obtains x where "fst m = Inr x" "fst (f x) = Inr y"
  using assms by (cases m; cases "fst m") (auto simp: fst_bind_io)

lemma df_shape0_DataFrame [simp]: "df_shape0 (pd_DataFrame records) = length records"
  by (simp add: df_shape0_def pd_DataFrame_def)

lemma user_fetches:
  "get_user_articles srv self a =
     (map_sum id pd_DataFrame (table_response srv (user_request self ''articles'' a)),
      [Request (user_request self ''articles'' a)])"
  "get_user_projects srv self a =
     (map_sum id pd_DataFrame (table_response srv (user_request self ''projects'' a)),
      [Request (user_request self ''projects'' a)])"
  "get_user_collections srv self a =
     (map_sum id pd_DataFrame (table_response srv (user_request self ''collections'' a)),
      [Request (user_request self ''collections'' a)])"
  by (simp_all add: get_user_articles_def get_user_projects_def get_user_collections_def
      table_accessor user_request_def endpoint_def first_page_def)

lemma roles_fetch:
  "get_account_group_roles srv self a =
     (roles_response srv (roles_request self a), [Request (roles_request self a)])"
  by (simp add: get_account_group_roles_def redata_request_simp roles_request_def
      institute_request_def endpoint_def)

text \<open>One guarded fetch.\<close>

lemma try_count_closed:
  assumes "fst (try_count (map_sum id pd_DataFrame r, ev) what a counts n) = Inr counts'"
  shows "counts' = counts[n := count_after r (counts ! n)]"
    and "r \<noteq> Inl e \<or> e = HTTPError"
    and "\<And>rows. r = Inr rows \<Longrightarrow> n < length counts"
  using assms
  by (cases r; auto simp: try_count_def count_after_def py_setitem_Inr split: if_splits)+

lemma try_count_events:
  "snd (try_count (map_sum id pd_DataFrame r, ev) what a counts n) =
     ev @ (if r = Inl HTTPError
           then [Logged WARNING (''Unable to retrieve '' @ what @ '' for : '' @ py_str a)] else [])"
  by (cases r) (auto simp: try_count_def)

lemma scan_roles_fields:
  assumes "scan_roles flag n roles acc = Inr acc'"
  shows "num_articles acc' = num_articles acc" "num_projects acc' = num_projects acc"
    "num_collections acc' = num_collections acc"
    "group_assoc acc' = (group_assoc acc)[n := assoc_after roles (group_assoc acc ! n)]"
    "admin_flag acc' = (if flag
       then map_option (\<lambda>fl. fl[n := mark_after 2 roles (fl ! n)]) (admin_flag acc)
       else admin_flag acc)"
    "reviewer_flag acc' = (if flag
       then map_option (\<lambda>fl. fl[n := mark_after 49 roles (fl ! n)]) (reviewer_flag acc)
       else reviewer_flag acc)"
  unfolding scan_roles_closed [OF assms]
  by (simp_all add: fold_outcome_counts fold_outcome_assoc fold_outcome_admin
      fold_outcome_reviewer assoc_after_def curator_keys_def mark_after_def has_role_def Let_def)

text \<open>The loop body, in closed form.\<close>

lemma account_step_closed:
  assumes "fst (account_step srv self flag n a acc) = Inr acc'"
  shows "acc' = step_outcome srv self flag n a acc"
    and "roles_response srv (roles_request self a) = Inr (roles_of srv self a)"
proof -
  from assms obtain roles arts projs colls where
    roles: "roles_response srv (roles_request self a) = Inr roles"
    and arts: "fst (try_count (get_user_articles srv self a) ''articles'' a (num_articles acc) n) = Inr arts"
    and projs: "fst (try_count (get_user_projects srv self a) ''projects'' a (num_projects acc) n) = Inr projs"
    and colls: "fst (try_count (get_user_collections srv self a) ''collections'' a (num_collections acc) n) = Inr colls"
    and scan: "scan_roles flag n roles
        (acc\<lparr>num_articles := arts, num_projects := projs, num_collections := colls\<rparr>) = Inr acc'"
    unfolding account_step_def
    by (auto elim!: fst_bind_io_InrE simp: roles_fetch)
  show r: "roles_response srv (roles_request self a) = Inr (roles_of srv self a)"
    using roles by (simp add: roles_of_def)
  have ro: "roles_of srv self a = roles" using roles by (simp add: roles_of_def)
  show "acc' = step_outcome srv self flag n a acc"
    using scan_roles_fields [OF scan]
      try_count_closed(1) [OF arts [unfolded user_fetches]]
      try_count_closed(1) [OF projs [unfolded user_fetches]]
      try_count_closed(1) [OF colls [unfolded user_fetches]]
    by (intro accumulators.equality) (simp_all add: step_outcome_def ro)
qed

text \<open>The loop over the accounts, in closed form.\<close>

lemma accounts_loop_closed:
  "fst (accounts_loop srv self flag zs acc) = Inr acc' \<Longrightarrow>
   acc' = fold (\<lambda>(n, a). step_outcome srv self flag n a) zs acc"
proof (induction zs arbitrary: acc)
  case Nil
  then show ?case by simp
next
  case (Cons z zs)
  obtain n a where z: "z = (n, a)" by (cases z)
  from Cons.prems z obtain acc1 where
    1: "fst (account_step srv self flag n a acc) = Inr acc1"
    and 2: "fst (accounts_loop srv self flag zs acc1) = Inr acc'"
    by (auto elim!: fst_bind_io_InrE)
  show ?case using Cons.IH [OF 2] account_step_closed(1) [OF 1] z by simp
qed

lemma accounts_loop_roles:
  "fst (accounts_loop srv self flag zs acc) = Inr acc' \<Longrightarrow> (n, a) \<in> set zs \<Longrightarrow>
   roles_response srv (roles_request self a) = Inr (roles_of srv self a)"
proof (induction zs arbitrary: acc)
  case Nil
  then show ?case by simp
next
  case (Cons z zs)
  obtain m b where z: "z = (m, b)" by (cases z)
  from Cons.prems(1) z obtain acc1 where
    1: "fst (account_step srv self flag m b acc) = Inr acc1"
    and 2: "fst (accounts_loop srv self flag zs acc1) = Inr acc'"
    by (auto elim!: fst_bind_io_InrE)
  show ?case
  proof (cases "(n, a) = (m, b)")
    case True
    then show ?thesis using account_step_closed(2) [OF 1] by simp
  next
    case False
    then show ?thesis using Cons.IH [OF 2] Cons.prems(2) z by auto
  qed
qed

lemma step_outcome_fields [simp]:
  "num_articles (step_outcome srv self flag n a acc) = (num_articles acc)
     [n := count_after (table_response srv (user_request self ''articles'' a)) (num_articles acc ! n)]"
  "num_projects (step_outcome srv self flag n a acc) = (num_projects acc)
     [n := count_after (table_response srv (user_request self ''projects'' a)) (num_projects acc ! n)]"
  "num_collections (step_outcome srv self flag n a acc) = (num_collections acc)
     [n := count_after (table_response srv (user_request self ''collections'' a)) (num_collections acc ! n)]"
  "admin_flag (step_outcome srv self flag n a acc) = (if flag
     then map_option (\<lambda>fl. fl[n := mark_after 2 (roles_of srv self a) (fl ! n)]) (admin_flag acc)
     else admin_flag acc)"
  "reviewer_flag (step_outcome srv self flag n a acc) = (if flag
     then map_option (\<lambda>fl. fl[n := mark_after 49 (roles_of srv self a) (fl ! n)]) (reviewer_flag acc)
     else reviewer_flag acc)"
  "group_assoc (step_outcome srv self flag n a acc) =
     (group_assoc acc)[n := assoc_after (roles_of srv self a) (group_assoc acc ! n)]"
  by (simp_all add: step_outcome_def)

text \<open>
  Updating slot after slot of a fresh array: the result lists, account by account, what
  the update makes of the initial value.
\<close>

lemma fold_update_fresh:
  "length pre = k \<Longrightarrow>
   fold (\<lambda>(n, a) xs. xs[n := upd a (xs ! n)]) (enumerate k ids)
     (pre @ replicate (length ids) d @ post) = pre @ map (\<lambda>a. upd a d) ids @ post"
proof (induction ids arbitrary: k pre)
  case Nil
  then show ?case by simp
next
  case (Cons a ids)
  have "length (pre @ [upd a d]) = Suc k" using Cons.prems by simp
  from Cons.IH [OF this] show ?case
    using Cons.prems by (simp add: nth_append list_update_append)
qed

lemma fold_update_replicate:
  "fold (\<lambda>(n, a) xs. xs[n := upd a (xs ! n)]) (zip [0..<length ids] ids) (replicate (length ids) d)
     = map (\<lambda>a. upd a d) ids"
  using fold_update_fresh [of "[]" 0 upd ids d "[]"] by (simp add: enumerate_eq_zip)

lemma fold_step_articles:
  "num_articles (fold (\<lambda>(n, a). step_outcome srv self flag n a) zs acc) =
   fold (\<lambda>(n, a) xs. xs[n := count_after (table_response srv (user_request self ''articles'' a)) (xs ! n)])
     zs (num_articles acc)"
  by (induction zs arbitrary: acc) auto

lemma fold_step_projects:
  "num_projects (fold (\<lambda>(n, a). step_outcome srv self flag n a) zs acc) =
   fold (\<lambda>(n, a) xs. xs[n := count_after (table_response srv (user_request self ''projects'' a)) (xs ! n)])
     zs (num_projects acc)"
  by (induction zs arbitrary: acc) auto

lemma fold_step_collections:
  "num_collections (fold (\<lambda>(n, a). step_outcome srv self flag n a) zs acc) =
   fold (\<lambda>(n, a) xs. xs[n := count_after (table_response srv (user_request self ''collections'' a)) (xs ! n)])
     zs (num_collections acc)"
  by (induction zs arbitrary: acc) auto

lemma fold_step_assoc:
  "group_assoc (fold (\<lambda>(n, a). step_outcome srv self flag n a) zs acc) =
   fold (\<lambda>(n, a) xs. xs[n := assoc_after (roles_of srv self a) (xs ! n)]) zs (group_assoc acc)"
  by (induction zs arbitrary: acc) auto

lemma fold_step_admin:
  "admin_flag (fold (\<lambda>(n, a). step_outcome srv self flag n a) zs acc) =
   (if flag
    then map_option (fold (\<lambda>(n, a) xs. xs[n := mark_after 2 (roles_of srv self a) (xs ! n)]) zs)
           (admin_flag acc)
    else admin_flag acc)"
  by (induction zs arbitrary: acc) (auto simp: option.map_comp comp_def option.map_ident option.map_id)

lemma fold_step_reviewer:
  "reviewer_flag (fold (\<lambda>(n, a). step_outcome srv self flag n a) zs acc) =
   (if flag
    then map_option (fold (\<lambda>(n, a) xs. xs[n := mark_after 49 (roles_of srv self a) (xs ! n)]) zs)
           (reviewer_flag acc)
    else reviewer_flag acc)"
  by (induction zs arbitrary: acc) (auto simp: option.map_comp comp_def option.map_ident option.map_id)

text \<open>The table operations.\<close>

lemma df_setitem_eq:
  "df_setitem df name vs =
     (if length vs \<noteq> length (df_index df) then Inl OtherException else Inr (set_column df name vs))"
  by (simp add: df_setitem_def set_column_def)

lemma set_column_index [simp]: "df_index (set_column df name vs) = df_index df"
  by (simp add: set_column_def)

lemma map_of_replaced:
  "map_of (map (\<lambda>(k, old). if k = name then (k, vs) else (k, old)) cols) c =
     (if c = name then map_option (\<lambda>_. vs) (map_of cols c) else map_of cols c)"
  by (induction cols) auto

lemma getitem_set_column:
  "df_getitem (set_column df name vs) c = (if c = name then Inr vs else df_getitem df c)"
proof (cases "name \<in> set (df_columns df)")
  case True
  then obtain old where "map_of (df_cols df) name = Some old"
    by (auto simp: df_columns_def dest!: weak_map_of_SomeI)
  then show ?thesis using True
    by (simp add: df_getitem_def set_column_def map_of_replaced)
next
  case False
  then have "map_of (df_cols df) name = None"
    by (simp add: df_columns_def map_of_eq_None_iff)
  then show ?thesis using False
    by (auto simp: df_getitem_def set_column_def map_add_def split: option.splits)
qed

lemma set_column_fresh:
  "name \<notin> set (df_columns df) \<Longrightarrow> df_cols (set_column df name vs) = df_cols df @ [(name, vs)]"
  by (simp add: set_column_def)

lemma columns_set_column:
  "df_columns (set_column df name vs) =
     (if name \<in> set (df_columns df) then df_columns df else df_columns df @ [name])"
  by (auto simp: set_column_def df_columns_def comp_def case_prod_beta intro!: map_idI)

lemma aligned_getitem:
  "aligned df \<Longrightarrow> df_getitem df c = Inr vs \<Longrightarrow> length vs = length (df_index df)"
  by (auto simp: aligned_def df_getitem_def list_all_iff split: option.splits dest!: map_of_SomeD)

lemma aligned_DataFrame: "aligned (pd_DataFrame records)"
  by (simp add: aligned_def pd_DataFrame_def list_all_iff)

lemma aligned_drop_columns:
  "aligned df \<Longrightarrow> df_drop_columns df name = Inr df' \<Longrightarrow> aligned df' \<and> df_index df' = df_index df"
  by (auto simp: aligned_def df_drop_columns_def list_all_iff split: if_splits)

lemma length_keep_rows:
  "length xs = length idx \<Longrightarrow> length ys = length idx \<Longrightarrow>
   length (keep_rows idx labels xs) = length (keep_rows idx labels ys)"
proof (induction idx arbitrary: xs ys)
  case Nil
  then show ?case by (simp add: keep_rows_def)
next
  case (Cons i idx)
  then obtain x xs' y ys' where "xs = x # xs'" "ys = y # ys'"
    by (cases xs; cases ys) auto
  with Cons show ?case by (auto simp: keep_rows_def)
qed

lemma aligned_drop_rows:
  "aligned df \<Longrightarrow> df_drop_rows df labels = Inr df' \<Longrightarrow> aligned df'"
  by (auto simp: aligned_def df_drop_rows_def list_all_iff split: if_splits
      intro!: length_keep_rows)

lemma aligned_reset_index: "aligned df \<Longrightarrow> aligned (reset_index df)"
  by (simp add: aligned_def reset_index_def)




lemma getitem_DataFrame:
  "df_getitem (pd_DataFrame records) c = Inr vs \<Longrightarrow> vs = map (\<lambda>d. cell_of d c) records"
  by (auto simp: df_getitem_def pd_DataFrame_def map_of_map_restrict restrict_map_def
      split: option.splits if_splits)

lemma getitem_drop_columns:
  "df_drop_columns df name = Inr df' \<Longrightarrow> c \<noteq> name \<Longrightarrow> df_getitem df' c = df_getitem df c"
proof -
  have "map_of (filter (\<lambda>(k, vs). k \<noteq> name) cols) c = map_of cols c" if "c \<noteq> name" for cols :: "(string \<times> val list) list"
    using that by (induction cols) auto
  then show "df_drop_columns df name = Inr df' \<Longrightarrow> c \<noteq> name \<Longrightarrow> df_getitem df' c = df_getitem df c"
    by (auto simp: df_drop_columns_def df_getitem_def split: if_splits)
qed

text \<open>The labels the filter loop collects.\<close>

lemma drop_index_loop_closed:
  assumes "drop_index_loop srv df filters acc = Inr labels"
  shows "filters = [] \<and> labels = acc \<or>
    (\<exists>emails. df_getitem df ''email'' = Inr emails \<and> list_all is_str emails \<and>
       set labels = set acc \<union>
         {i. \<exists>j < min (length (df_index df)) (length emails).
               i = df_index df ! j \<and> email_matches srv filters (emails ! j)})"
  using assms
proof (induction filters arbitrary: acc)
  case Nil
  then show ?case by simp
next
  case (Cons ia rest)
  from Cons.prems obtain emails bmask where
    em: "df_getitem df ''email'' = Inr emails"
    and bm: "str_contains srv emails ia = Inr bmask"
    and rest: "drop_index_loop srv df rest (acc @ mask_index df bmask) = Inr labels"
    by (auto elim!: bind_exn_InrE)
  from bm obtain found where strs: "list_all is_str emails"
    and found: "re_search srv ia = Some found" and bmask: "bmask = map (\<lambda>v. found (py_str v)) emails"
    by (auto simp: str_contains_def split: if_splits option.splits)
  have mi: "set (mask_index df bmask) =
      {i. \<exists>j < min (length (df_index df)) (length emails). i = df_index df ! j \<and> found (py_str (emails ! j))}"
    unfolding mask_index_def bmask
    by (auto simp: set_zip image_iff) force
  have split: "email_matches srv (ia # rs) v \<longleftrightarrow> found (py_str v) \<or> email_matches srv rs v" for v rs
    by (simp add: email_matches_def found)
  have none: "\<not> email_matches srv [] v" for v
    by (simp add: email_matches_def)
  from Cons.IH [OF rest] show ?case
  proof
    assume "rest = [] \<and> labels = acc @ mask_index df bmask"
    then show ?thesis using em strs mi by (auto simp: split none)
  next
    assume "\<exists>emails. df_getitem df ''email'' = Inr emails \<and> list_all is_str emails \<and>
       set labels = set (acc @ mask_index df bmask) \<union>
         {i. \<exists>j < min (length (df_index df)) (length emails).
               i = df_index df ! j \<and> email_matches srv rest (emails ! j)}"
    then show ?thesis using em strs mi by (auto simp: split)
  qed
qed

lemma enumerate_filter_zip:
  "length es = length xs \<Longrightarrow> \<forall>j < length xs. (k + j \<in> L) = P (es ! j) \<Longrightarrow>
   map snd (filter (\<lambda>(i, x). i \<notin> L) (enumerate k xs)) =
   map snd (filter (\<lambda>(e, x). \<not> P e) (zip es xs))"
proof (induction es xs arbitrary: k rule: list_induct2)
  case Nil
  then show ?case by simp
next
  case (Cons e es x xs)
  have head: "(k \<in> L) = P e" using Cons.prems by fastforce
  have "\<forall>j < length xs. (Suc k + j \<in> L) = P (es ! j)"
  proof (intro allI impI)
    fix j assume "j < length xs"
    then have "(k + Suc j \<in> L) = P ((e # es) ! Suc j)" using Cons.prems by fastforce
    then show "(Suc k + j \<in> L) = P (es ! j)" by simp
  qed
  from Cons.IH [OF this] show ?case using head by simp
qed

lemma keep_rows_surviving:
  assumes "length emails = length xs"
    and "\<forall>j < length xs. (j \<in> set labels) = email_matches srv filters (emails ! j)"
  shows "keep_rows [0..<length xs] labels xs = surviving srv filters emails xs"
proof -
  have "zip [0..<length xs] xs = enumerate 0 xs" by (simp add: enumerate_eq_zip)
  then show ?thesis
    using enumerate_filter_zip [OF assms(1), of 0 "set labels" "email_matches srv filters"] assms(2)
    by (simp add: keep_rows_def surviving_def)
qed

lemma surviving_none:
  "length emails = length xs \<Longrightarrow> surviving srv [] emails xs = xs"
  by (simp add: surviving_def email_matches_def)

lemma length_surviving:
  "length emails = length xs \<Longrightarrow>
   length (surviving srv filters emails xs) =
   length (filter (\<lambda>e. \<not> email_matches srv filters e) emails)"
  by (induction emails xs rule: list_induct2) (auto simp: surviving_def)

lemma DataFrame_column_length:
  "(c, vs) \<in> set (df_cols (pd_DataFrame records)) \<Longrightarrow> length vs = length records"
  by (auto simp: pd_DataFrame_def)

lemma get_account_list_closed:
  assumes resp: "table_response srv (accounts_request self) = Inr accounts"
    and ok: "fst (get_account_list srv self) = Inr result"
  shows "df_cols result =
      map (\<lambda>(c, vs). (c, surviving srv (active_filters self) (map (\<lambda>d. cell_of d ''email'') accounts) vs))
        (filter (\<lambda>(c, vs). c \<noteq> ''institution_id'') (df_cols (pd_DataFrame accounts)))"
    and "df_index result =
      [0..<length (filter (\<lambda>e. \<not> email_matches srv (active_filters self) e)
                     (map (\<lambda>d. cell_of d ''email'') accounts))]"
proof -
  define raw where "raw = pd_DataFrame accounts"
  define emails where "emails = map (\<lambda>d. cell_of d ''email'') accounts"
  define n where "n = length accounts"
  have req: "\<lparr>req_method = GET, req_url = endpoint self ''accounts'' True, req_headers = headers self,
      req_params = Some first_page\<rparr> = accounts_request self"
    by (simp add: accounts_request_def institute_request_def endpoint_def first_page_def)
  from ok resp obtain adf where
    adf: "df_drop_columns raw ''institution_id'' = Inr adf"
    and tail: "fst (if ignore_admin self then
            bind_io (log_info ''Excluding administrative and test accounts'') (\<lambda>_.
            case admin_filter self of
              None \<Rightarrow> raise_io OtherException
            | Some filters \<Rightarrow>
                bind_io (lift_io (drop_index_loop srv adf filters [])) (\<lambda>drop_index.
                bind_io (lift_io (df_drop_rows adf drop_index)) (\<lambda>kept.
                  return_io (reset_index kept))))
          else return_io adf) = Inr result"
    unfolding get_account_list_def redata_request_simp req raw_def
    by (auto simp: bind_io_pair split: sum.splits)
  have cols: "df_cols adf = filter (\<lambda>(c, vs). c \<noteq> ''institution_id'') (df_cols raw)"
    and idx: "df_index adf = [0..<n]"
    using adf by (auto simp: df_drop_columns_def raw_def pd_DataFrame_def n_def split: if_splits)
  have len: "length vs = n" if "(c, vs) \<in> set (df_cols adf)" for c vs
    using that DataFrame_column_length [of c vs accounts] by (auto simp: cols raw_def n_def)
  have elen: "length emails = n" by (simp add: emails_def n_def)
  show "df_cols result =
      map (\<lambda>(c, vs). (c, surviving srv (active_filters self) (map (\<lambda>d. cell_of d ''email'') accounts) vs))
        (filter (\<lambda>(c, vs). c \<noteq> ''institution_id'') (df_cols (pd_DataFrame accounts)))"
    (is "?C")
    and "df_index result =
      [0..<length (filter (\<lambda>e. \<not> email_matches srv (active_filters self) e)
                     (map (\<lambda>d. cell_of d ''email'') accounts))]" (is "?I")
  proof -
    have "?C \<and> ?I"
    proof (cases "ignore_admin self")
      case False
      then have r: "result = adf" and af: "active_filters self = []"
        using tail by (simp_all add: active_filters_def)
      have "df_cols adf = map (\<lambda>(c, vs). (c, surviving srv [] emails vs)) (df_cols adf)"
        using len elen by (intro map_idI [symmetric]) (auto simp: surviving_none)
      moreover have "\<not> email_matches srv [] e" for e by (simp add: email_matches_def)
      ultimately show ?thesis
        using idx elen by (simp add: r af cols raw_def emails_def [symmetric])
    next
      case True
      with tail obtain filters labels kept where
        fl: "admin_filter self = Some filters"
        and labels: "drop_index_loop srv adf filters [] = Inr labels"
        and kept: "df_drop_rows adf labels = Inr kept"
        and r: "result = reset_index kept"
        by (auto simp: bind_io_pair split: option.splits sum.splits)
      have af: "active_filters self = filters" using True fl by (simp add: active_filters_def)
      have member: "\<forall>j < n. (j \<in> set labels) = email_matches srv filters (emails ! j)"
        using drop_index_loop_closed [OF labels]
      proof
        assume "filters = [] \<and> labels = []"
        then show ?thesis by (simp add: email_matches_def)
      next
        assume "\<exists>emails. df_getitem adf ''email'' = Inr emails \<and> list_all is_str emails \<and>
          set labels = set [] \<union>
            {i. \<exists>j < min (length (df_index adf)) (length emails).
                  i = df_index adf ! j \<and> email_matches srv filters (emails ! j)}"
        then obtain es where es: "df_getitem adf ''email'' = Inr es"
          and set: "set labels =
            {i. \<exists>j < min (length (df_index adf)) (length es).
                  i = df_index adf ! j \<and> email_matches srv filters (es ! j)}"
          by auto
        have "df_getitem raw ''email'' = Inr es"
          using getitem_drop_columns [OF adf, of "''email''"] es by simp
        then have "es = emails"
          using getitem_DataFrame by (simp add: raw_def emails_def)
        then show ?thesis using set idx elen by auto
      qed
      have keep: "keep_rows [0..<n] labels vs = surviving srv filters emails vs" if "length vs = n" for vs :: "'b list"
        using keep_rows_surviving [of emails vs labels srv filters] that elen member by simp
      have kc: "df_cols kept = map (\<lambda>(c, vs). (c, keep_rows [0..<n] labels vs)) (df_cols adf)"
        and ki: "df_index kept = keep_rows [0..<n] labels [0..<n]"
        using kept by (auto simp: df_drop_rows_def idx split: if_splits)
      have "map (\<lambda>(c, vs). (c, keep_rows [0..<n] labels vs)) (df_cols adf) =
            map (\<lambda>(c, vs). (c, surviving srv filters emails vs)) (df_cols adf)"
        using len keep by (intro map_cong) auto
      moreover have "length (keep_rows [0..<n] labels [0..<n]) =
          length (filter (\<lambda>e. \<not> email_matches srv filters e) emails)"
        using keep [of "[0..<n]"] length_surviving [of emails "[0..<n]" srv filters] elen by simp
      ultimately show ?thesis
        by (simp add: r reset_index_def kc ki af cols raw_def emails_def [symmetric])
    qed
    then show ?C and ?I by simp_all
  qed
qed








text \<open>The loop over the groups, in closed form.\<close>

lemma resolve_groups_Cons:
  "resolve_groups ((g, name) # rest) s = resolve_groups rest (py_replace s (py_str g) (py_str name))"
  by (simp add: resolve_groups_def)

lemma replace_in_all_closed:
  "replace_in_all assoc g name = Inr assoc' \<Longrightarrow>
   assoc' = map (\<lambda>sub. py_replace sub (py_str g) (py_str name)) assoc"
  by (cases name) (auto simp: replace_in_all_def split: if_splits)

lemma groups_loop_closed:
  "fst (groups_loop groups assoc) = Inr assoc' \<Longrightarrow> assoc' = map (resolve_groups groups) assoc"
proof (induction groups arbitrary: assoc)
  case Nil
  then show ?case by (simp add: resolve_groups_def)
next
  case (Cons p rest)
  obtain g name where p: "p = (g, name)" by (cases p)
  from Cons.prems p obtain assoc1 where
    1: "replace_in_all assoc g name = Inr assoc1"
    and 2: "fst (groups_loop rest assoc1) = Inr assoc'"
    by (auto elim!: fst_bind_io_InrE)
  show ?case
    using Cons.IH [OF 2] replace_in_all_closed [OF 1] p by (simp add: resolve_groups_Cons)
qed

lemma get_account_list_aligned:
  assumes "fst (get_account_list srv self) = Inr accounts_df"
  shows "aligned accounts_df"
proof -
  from assms obtain accounts where resp: "table_response srv (accounts_request self) = Inr accounts"
    unfolding get_account_list_def redata_request_simp accounts_request_def institute_request_def
      endpoint_def first_page_def
    by (auto simp: bind_io_pair split: sum.splits)
  note closed = get_account_list_closed [OF resp assms]
  have "length (surviving srv (active_filters self) (map (\<lambda>d. cell_of d ''email'') accounts) vs) =
      length (df_index accounts_df)"
    if "(c, vs) \<in> set (df_cols (pd_DataFrame accounts))" for c vs
    using length_surviving [of "map (\<lambda>d. cell_of d ''email'') accounts" vs srv "active_filters self"]
      DataFrame_column_length [OF that] closed(2) by simp
  then show ?thesis
    unfolding aligned_def closed(1) by (auto simp: list_all_iff)
qed

lemma get_groups_eq:
  "get_groups srv self =
     (map_sum id pd_DataFrame (table_response srv (groups_request self)), [Request (groups_request self)])"
  by (simp add: get_groups_def table_accessor groups_request_def institute_request_def endpoint_def)

text \<open>The aggregation, in closed form.\<close>

lemma loop_arrays:
  assumes loop: "fst (accounts_loop srv self flag (zip [0..<length ids] ids)
      \<lparr>num_articles = replicate (length ids) 0, num_projects = replicate (length ids) 0,
       num_collections = replicate (length ids) 0,
       admin_flag = (if flag then Some (replicate (length ids) []) else None),
       reviewer_flag = (if flag then Some (replicate (length ids) []) else None),
       group_assoc = replicate (length ids) ''N/A''\<rparr>) = Inr acc"
  shows "num_articles acc = map (\<lambda>a. fetched_count (table_response srv (user_request self ''articles'' a))) ids"
    and "num_projects acc = map (\<lambda>a. fetched_count (table_response srv (user_request self ''projects'' a))) ids"
    and "num_collections acc = map (\<lambda>a. fetched_count (table_response srv (user_request self ''collections'' a))) ids"
    and "admin_flag acc = (if flag then Some (map (\<lambda>a. mark_after 2 (roles_of srv self a) []) ids) else None)"
    and "reviewer_flag acc = (if flag then Some (map (\<lambda>a. mark_after 49 (roles_of srv self a) []) ids) else None)"
    and "group_assoc acc = map (\<lambda>a. assoc_after (roles_of srv self a) ''N/A'') ids"
  unfolding accounts_loop_closed [OF loop]
  using
    fold_update_replicate [of "\<lambda>a. count_after (table_response srv (user_request self ''articles'' a))" ids 0]
    fold_update_replicate [of "\<lambda>a. count_after (table_response srv (user_request self ''projects'' a))" ids 0]
    fold_update_replicate [of "\<lambda>a. count_after (table_response srv (user_request self ''collections'' a))" ids 0]
    fold_update_replicate [of "\<lambda>a. mark_after 2 (roles_of srv self a)" ids "[]"]
    fold_update_replicate [of "\<lambda>a. mark_after 49 (roles_of srv self a)" ids "[]"]
    fold_update_replicate [of "\<lambda>a. assoc_after (roles_of srv self a)" ids "''N/A''"]
  by (simp_all add: fold_step_articles fold_step_projects fold_step_collections fold_step_admin
      fold_step_reviewer fold_step_assoc fetched_count_def)

lemma details_closed:
  assumes ok: "fst (get_account_details srv self flag) = Inr table"
  obtains accounts_df groups ids group_ids group_names where
    "fst (get_account_list srv self) = Inr accounts_df"
    "table_response srv (groups_request self) = Inr groups"
    "df_getitem accounts_df ''id'' = Inr ids"
    "length ids = length (df_index accounts_df)"
    "df_getitem (pd_DataFrame groups) ''id'' = Inr group_ids"
    "df_getitem (pd_DataFrame groups) ''name'' = Inr group_names"
    "\<And>a. a \<in> set ids \<Longrightarrow> roles_response srv (roles_request self a) = Inr (roles_of srv self a)"
    "table = details_table srv self flag accounts_df ids (zip group_ids group_names)"
proof -
  from ok obtain adf groups_df ids acc df1 df2 df3 df4 gids gnames assoc where
    adf: "fst (get_account_list srv self) = Inr adf"
    and gdf: "fst (get_groups srv self) = Inr groups_df"
    and ids: "df_getitem adf ''id'' = Inr ids"
    and loop: "fst (accounts_loop srv self flag (zip [0..<df_shape0 adf] ids)
        \<lparr>num_articles = replicate (df_shape0 adf) 0, num_projects = replicate (df_shape0 adf) 0,
         num_collections = replicate (df_shape0 adf) 0,
         admin_flag = (if flag then Some (replicate (df_shape0 adf) []) else None),
         reviewer_flag = (if flag then Some (replicate (df_shape0 adf) []) else None),
         group_assoc = replicate (df_shape0 adf) ''N/A''\<rparr>) = Inr acc"
    and df1: "df_setitem adf ''Articles'' (map PyInt (num_articles acc)) = Inr df1"
    and df2: "df_setitem df1 ''Projects'' (map PyInt (num_projects acc)) = Inr df2"
    and df3: "df_setitem df2 ''Collections'' (map PyInt (num_collections acc)) = Inr df3"
    and df4: "attach_flags flag acc df3 = Inr df4"
    and gids: "df_getitem groups_df ''id'' = Inr gids"
    and gnames: "df_getitem groups_df ''name'' = Inr gnames"
    and assoc: "fst (groups_loop (zip gids gnames) (group_assoc acc)) = Inr assoc"
    and table: "df_setitem df4 ''Group'' (map PyStr assoc) = Inr table"
    unfolding get_account_details_def Let_def
    by (elim fst_bind_io_InrE) (simp only: io_simps fst_conv)
  from gdf obtain groups where groups: "table_response srv (groups_request self) = Inr groups"
    and gdf_eq: "groups_df = pd_DataFrame groups"
    by (cases "table_response srv (groups_request self)") (auto simp: get_groups_eq)
  have n: "df_shape0 adf = length ids"
    using aligned_getitem [OF get_account_list_aligned [OF adf] ids] by (simp add: df_shape0_def)
  note arrays = loop_arrays [OF loop [unfolded n]]
  have roles: "roles_response srv (roles_request self a) = Inr (roles_of srv self a)"
    if "a \<in> set ids" for a
  proof -
    from that obtain i where "i < length ids" "ids ! i = a" by (auto simp: in_set_conv_nth)
    then have "(i, a) \<in> set (zip [0..<df_shape0 adf] ids)"
      by (auto simp: set_zip n intro!: exI [of _ i])
    then show ?thesis by (rule accounts_loop_roles [OF loop])
  qed
  have d1: "df1 = set_column adf ''Articles'' (map PyInt (num_articles acc))"
    using df1 by (simp add: df_setitem_eq split: if_splits)
  have d2: "df2 = set_column df1 ''Projects'' (map PyInt (num_projects acc))"
    using df2 by (simp add: df_setitem_eq split: if_splits)
  have d3: "df3 = set_column df2 ''Collections'' (map PyInt (num_collections acc))"
    using df3 by (simp add: df_setitem_eq split: if_splits)
  have d4: "df4 = with_flags srv self flag ids df3"
    using df4 arrays(4,5)
    by (auto simp: attach_flags_def with_flags_def df_setitem_eq comp_def
        elim!: bind_exn_InrE split: if_splits)
  have t: "table = set_column df4 ''Group'' (map PyStr assoc)"
    using table by (simp add: df_setitem_eq split: if_splits)
  have "table = details_table srv self flag adf ids (zip gids gnames)"
    unfolding t d4 d3 d2 d1 groups_loop_closed [OF assoc] arrays details_table_def
    by (simp add: comp_def)
  then show ?thesis
    using that [OF adf groups ids n [symmetric, unfolded df_shape0_def]] gids gnames roles
    unfolding gdf_eq by blast
qed

text \<open>The columns of the aggregated table.\<close>

lemma details_index [simp]:
  "df_index (details_table srv self flag accounts_df ids groups) = df_index accounts_df"
  by (simp add: details_table_def with_flags_def)

lemma getitem_with_flags:
  "df_getitem (with_flags srv self flag ids df) c =
     (if flag \<and> c = ''Reviewer'' then Inr (map (\<lambda>a. PyStr (mark_after 49 (roles_of srv self a) [])) ids)
      else if flag \<and> c = ''Admin'' then Inr (map (\<lambda>a. PyStr (mark_after 2 (roles_of srv self a) [])) ids)
      else df_getitem df c)"
  by (simp add: with_flags_def getitem_set_column)

lemma details_getitem_counts:
  "df_getitem (details_table srv self flag accounts_df ids groups) ''Articles'' =
     Inr (map (\<lambda>a. PyInt (fetched_count (table_response srv (user_request self ''articles'' a)))) ids)"
  "df_getitem (details_table srv self flag accounts_df ids groups) ''Projects'' =
     Inr (map (\<lambda>a. PyInt (fetched_count (table_response srv (user_request self ''projects'' a)))) ids)"
  "df_getitem (details_table srv self flag accounts_df ids groups) ''Collections'' =
     Inr (map (\<lambda>a. PyInt (fetched_count (table_response srv (user_request self ''collections'' a)))) ids)"
  by (simp_all add: details_table_def getitem_set_column getitem_with_flags)

lemma details_getitem_group:
  "df_getitem (details_table srv self flag accounts_df ids groups) ''Group'' =
     Inr (map (\<lambda>a. PyStr (resolve_groups groups (assoc_after (roles_of srv self a) ''N/A''))) ids)"
  by (simp add: details_table_def getitem_set_column)

lemma details_getitem_flags:
  "df_getitem (details_table srv self flag accounts_df ids groups) ''Admin'' =
     (if flag then Inr (map (\<lambda>a. PyStr (mark_after 2 (roles_of srv self a) [])) ids)
      else df_getitem accounts_df ''Admin'')"
  "df_getitem (details_table srv self flag accounts_df ids groups) ''Reviewer'' =
     (if flag then Inr (map (\<lambda>a. PyStr (mark_after 49 (roles_of srv self a) [])) ids)
      else df_getitem accounts_df ''Reviewer'')"
  by (simp_all add: details_table_def getitem_set_column getitem_with_flags)

lemma details_getitem_old:
  assumes "c \<notin> set (new_columns True)"
  shows "df_getitem (details_table srv self flag accounts_df ids groups) c = df_getitem accounts_df c"
proof -
  have "c \<noteq> ''Articles''" "c \<noteq> ''Projects''" "c \<noteq> ''Collections''" "c \<noteq> ''Admin''"
    "c \<noteq> ''Reviewer''" "c \<noteq> ''Group''"
    using assms by (auto simp: new_columns_def)
  then show ?thesis
    by (simp add: details_table_def getitem_set_column getitem_with_flags)
qed

lemma set_column_extends:
  "df_cols df = base @ new \<Longrightarrow> name \<notin> set (map fst base) \<Longrightarrow> name \<notin> set (map fst new) \<Longrightarrow>
   df_cols (set_column df name vs) = base @ new @ [(name, vs)]"
  by (simp add: set_column_def df_columns_def)

lemma details_cols_fresh:
  assumes fresh: "set (df_columns accounts_df) \<inter> set (new_columns flag) = {}"
  shows "\<exists>new. df_cols (details_table srv self flag accounts_df ids groups) = df_cols accounts_df @ new
    \<and> map fst new = new_columns flag"
proof -
  define base where "base = df_cols accounts_df"
  have notin: "c \<notin> set (map fst base)" if "c \<in> set (new_columns flag)" for c
    using fresh that by (auto simp: base_def df_columns_def)
  have d0: "df_cols accounts_df = base @ []" by (simp add: base_def)
  note d1 = set_column_extends [where name = "''Articles''", OF d0]
  note d2 = set_column_extends [where name = "''Projects''", OF d1]
  note d3 = set_column_extends [where name = "''Collections''", OF d2]
  show ?thesis
  proof (cases flag)
    case False
    note d4 = set_column_extends [where name = "''Group''", OF d3]
    have nb: "''Articles'' \<notin> set (map fst base)" "''Projects'' \<notin> set (map fst base)"
      "''Collections'' \<notin> set (map fst base)" "''Group'' \<notin> set (map fst base)"
      using False notin [of "''Articles''"] notin [of "''Projects''"] notin [of "''Collections''"]
        notin [of "''Group''"]
      by (simp_all add: new_columns_def)
    have eq: "with_flags srv self flag ids df = df" for df
      using False by (simp add: with_flags_def)
    have "df_cols (details_table srv self flag accounts_df ids groups) =
      base @ [] @ [(''Articles'', map (\<lambda>a. PyInt (fetched_count (table_response srv (user_request self ''articles'' a)))) ids)]
        @ [(''Projects'', map (\<lambda>a. PyInt (fetched_count (table_response srv (user_request self ''projects'' a)))) ids)]
        @ [(''Collections'', map (\<lambda>a. PyInt (fetched_count (table_response srv (user_request self ''collections'' a)))) ids)]
        @ [(''Group'', map (\<lambda>a. PyStr (resolve_groups groups (assoc_after (roles_of srv self a) ''N/A''))) ids)]"
      unfolding details_table_def eq using d4 nb by simp
    then show ?thesis using False by (simp add: base_def new_columns_def)
  next
    case True
    note d4 = set_column_extends [where name = "''Admin''", OF d3]
    note d5 = set_column_extends [where name = "''Reviewer''", OF d4]
    note d6 = set_column_extends [where name = "''Group''", OF d5]
    have nb: "''Articles'' \<notin> set (map fst base)" "''Projects'' \<notin> set (map fst base)"
      "''Collections'' \<notin> set (map fst base)" "''Group'' \<notin> set (map fst base)"
      "''Admin'' \<notin> set (map fst base)" "''Reviewer'' \<notin> set (map fst base)"
      using True notin [of "''Articles''"] notin [of "''Projects''"] notin [of "''Collections''"]
        notin [of "''Group''"] notin [of "''Admin''"] notin [of "''Reviewer''"]
      by (simp_all add: new_columns_def)
    have eq: "with_flags srv self flag ids df =
        set_column (set_column df ''Admin'' (map (\<lambda>a. PyStr (mark_after 2 (roles_of srv self a) [])) ids))
          ''Reviewer'' (map (\<lambda>a. PyStr (mark_after 49 (roles_of srv self a) [])) ids)" for df
      using True by (simp add: with_flags_def)
    have "df_cols (details_table srv self flag accounts_df ids groups) =
      base @ [] @ [(''Articles'', map (\<lambda>a. PyInt (fetched_count (table_response srv (user_request self ''articles'' a)))) ids)]
        @ [(''Projects'', map (\<lambda>a. PyInt (fetched_count (table_response srv (user_request self ''projects'' a)))) ids)]
        @ [(''Collections'', map (\<lambda>a. PyInt (fetched_count (table_response srv (user_request self ''collections'' a)))) ids)]
        @ [(''Admin'', map (\<lambda>a. PyStr (mark_after 2 (roles_of srv self a) [])) ids)]
        @ [(''Reviewer'', map (\<lambda>a. PyStr (mark_after 49 (roles_of srv self a) [])) ids)]
        @ [(''Group'', map (\<lambda>a. PyStr (resolve_groups groups (assoc_after (roles_of srv self a) ''N/A''))) ids)]"
      unfolding details_table_def eq using d6 nb by simp
    then show ?thesis using True by (simp add: base_def new_columns_def)
  qed
qed

lemma details_getitem_kept:
  assumes "c \<notin> set (new_columns flag)"
  shows "df_getitem (details_table srv self flag accounts_df ids groups) c = df_getitem accounts_df c"
proof (cases "c \<in> set (new_columns True)")
  case False
  then show ?thesis by (rule details_getitem_old)
next
  case True
  with assms have "\<not> flag" "c = ''Admin'' \<or> c = ''Reviewer''"
    by (auto simp: new_columns_def split: if_splits)
  then show ?thesis by (auto simp: details_getitem_flags)
qed

text \<open>The example service, run.\<close>

lemma demo_account_list_df:
  "fst (get_account_list demo_services demo_client) = Inr demo_accounts_df"
  by code_simp

lemma demo_details: "fst (get_account_details demo_services demo_client True) = Inr demo_table"
  by code_simp

lemma demo_details_unflagged:
  "fst (get_account_details demo_services demo_client False) = Inr demo_table_unflagged"
  by code_simp




text \<open>
  C4 (amended). The role-structure fetch is not guarded: when it raises for any one
  account of the list, HTTP error or other, the aggregation as a whole raises and returns
  no table. Only the articles, projects and collections fetches are isolated.
\<close>

theorem roles_failure_aborts:
  assumes "fst (get_account_list srv self) = Inr accounts_df"
    and "df_getitem accounts_df ''id'' = Inr ids"
    and "a \<in> set ids"
    and "roles_response srv (roles_request self a) = Inl e"
  shows "\<exists>e'. fst (get_account_details srv self flag) = Inl e'"
proof (cases "fst (get_account_details srv self flag)")
  case (Inl e')
  then show ?thesis by blast
next
  case (Inr table)
  then obtain adf ids' where
    adf: "fst (get_account_list srv self) = Inr adf"
    and ids': "df_getitem adf ''id'' = Inr ids'"
    and roles: "\<And>a. a \<in> set ids' \<Longrightarrow> roles_response srv (roles_request self a) = Inr (roles_of srv self a)"
    by (rule details_closed) blast
  from adf ids' assms(1,2) have "ids' = ids" by simp
  with roles [of a] assms(3,4) show ?thesis by simp
qed

lemma roles_down_account_list:
  "fst (get_account_list roles_down_services demo_client) = Inr demo_accounts_df"
  by code_simp

theorem roles_failure_aborts_witness:
  "\<exists>e'. fst (get_account_details roles_down_services demo_client True) = Inl e'"
proof -
  have "df_getitem demo_accounts_df ''id'' = Inr [PyInt 1, PyInt 3, PyInt 4]"
    "roles_response roles_down_services (roles_request demo_client (PyInt 3)) = Inl HTTPError"
    by code_simp+
  from roles_failure_aborts [OF roles_down_account_list this(1) _ this(2), of True]
  show ?thesis by simp
qed

text \<open>
  C4 as stated fails: with only the role structure of account 3 unavailable, the whole
  aggregation raises the HTTP error, though the same service with that fetch working
  yields the full table.
\<close>

theorem roles_http_error_propagates:
  "roles_response roles_down_services (roles_request demo_client (PyInt 3)) = Inl HTTPError
   \<and> fst (get_account_details roles_down_services demo_client True) = Inl HTTPError
   \<and> fst (get_account_details demo_services demo_client True) = Inr demo_table"
  by code_simp

text \<open>Replacement and the rendering of integers.\<close>

lemma replace_occ_absent: "\<not> sublist old s \<Longrightarrow> replace_occ old new s = s"
proof (induction s)
  case Nil
  then show ?case by simp
next
  case (Cons c cs)
  then have "\<not> prefix old (c # cs)" "\<not> sublist old cs"
    by (auto simp: sublist_Cons_right)
  with Cons.IH show ?case by simp
qed

lemma py_replace_absent: "\<not> sublist old s \<Longrightarrow> py_replace s old new = s"
  by (cases "old = []") (auto simp: py_replace_def replace_occ_absent)

lemma py_replace_whole: "py_replace old old new = new"
  by (cases old) (simp_all add: py_replace_def)

lemma resolve_groups_append:
  "resolve_groups (pre @ post) s = resolve_groups post (resolve_groups pre s)"
  by (simp add: resolve_groups_def)

lemma resolve_groups_absent:
  "\<forall>(g, name) \<in> set groups. \<not> sublist (py_str g) s \<Longrightarrow> resolve_groups groups s = s"
  by (induction groups) (auto simp: resolve_groups_Cons py_replace_absent resolve_groups_def)

lemma resolve_groups_exact:
  assumes "\<forall>(g', name') \<in> set pre. \<not> sublist (py_str g') (py_str g)"
    and "\<forall>(g', name') \<in> set post. \<not> sublist (py_str g') (py_str name)"
  shows "resolve_groups (pre @ (g, name) # post) (py_str g) = py_str name"
  using assms
  by (simp add: resolve_groups_append resolve_groups_Cons resolve_groups_absent py_replace_whole)

lemma str_nat_digits: "str_nat n \<noteq> [] \<and> set (str_nat n) \<subseteq> set ''0123456789''"
proof (induction n rule: str_nat.induct)
  case (1 n)
  define D where "D = set ''0123456789''"
  have digit: "digit_char d \<in> D" if "d < 10" for d
    unfolding digit_char_def D_def using that by (intro nth_mem) simp
  have "str_nat n \<noteq> [] \<and> set (str_nat n) \<subseteq> D"
  proof (cases "n < 10")
    case True
    then have "str_nat n = [digit_char n]" by (subst str_nat.simps) simp
    then show ?thesis using digit [OF True] by simp
  next
    case False
    then have eq: "str_nat n = str_nat (n div 10) @ [digit_char (n mod 10)]"
      by (subst str_nat.simps) simp
    have "set (str_nat (n div 10)) \<subseteq> D" using 1 False by (simp add: D_def)
    then show ?thesis using digit [of "n mod 10"] by (simp add: eq)
  qed
  then show ?case by (simp add: D_def)
qed

lemma str_int_digits: "str_int i \<noteq> [] \<and> set (str_int i) \<subseteq> insert (CHR ''-'') (set ''0123456789'')"
proof -
  define D where "D = set ''0123456789''"
  have "str_nat n \<noteq> [] \<and> set (str_nat n) \<subseteq> D" for n
    using str_nat_digits [of n] by (simp add: D_def)
  then have "str_int i \<noteq> [] \<and> set (str_int i) \<subseteq> insert (CHR ''-'') D"
    by (auto simp: str_int_def)
  then show ?thesis by (simp add: D_def)
qed

lemma str_int_not_in_NA: "\<not> sublist (str_int i) ''N/A''"
proof
  assume "sublist (str_int i) ''N/A''"
  then have sub: "set (str_int i) \<subseteq> set ''N/A''" by (rule set_mono_sublist)
  obtain c cs where "str_int i = c # cs"
    using str_int_digits [of i] by (cases "str_int i") simp_all
  then have c: "c \<in> set (str_int i)" by simp
  with sub have "c \<in> set ''N/A''" by blast
  then have 1: "c = CHR ''N'' \<or> c = CHR ''/'' \<or> c = CHR ''A''" by simp
  from c str_int_digits [of i] have "c \<in> insert (CHR ''-'') (set ''0123456789'')" by blast
  with 1 show False by auto
qed

lemma resolve_groups_NA:
  assumes "\<forall>g \<in> set gids. \<exists>i. g = PyInt i"
  shows "resolve_groups (zip gids gnames) ''N/A'' = ''N/A''"
proof (rule resolve_groups_absent, clarify)
  fix g name assume "(g, name) \<in> set (zip gids gnames)" "sublist (py_str g) ''N/A''"
  then have "g \<in> set gids" by (auto dest: set_zip_leftD)
  with assms obtain i where "g = PyInt i" by auto
  with \<open>sublist (py_str g) ''N/A''\<close> show False by (simp add: str_int_not_in_NA)
qed

lemma demo_groups_response:
  "table_response demo_services (groups_request demo_client) =
     Inr [demo_group 1 ''A'', demo_group 12 ''B'', demo_group 5 ''Library'']"
  by code_simp

lemma demo_group_columns:
  "df_getitem (pd_DataFrame [demo_group 1 ''A'', demo_group 12 ''B'', demo_group 5 ''Library'']) ''id''
     = Inr [PyInt 1, PyInt 12, PyInt 5]"
  "df_getitem (pd_DataFrame [demo_group 1 ''A'', demo_group 12 ''B'', demo_group 5 ''Library'']) ''name''
     = Inr [PyStr ''A'', PyStr ''B'', PyStr ''Library'']"
  by code_simp+

lemma demo_account_ids: "df_getitem demo_accounts_df ''id'' = Inr [PyInt 1, PyInt 3, PyInt 4]"
  by code_simp

text \<open>When the aggregation goes through.\<close>

lemma sized_record_outcome: "sized N flag acc \<Longrightarrow> sized N flag (record_outcome flag n key rid acc)"
  by (auto simp: sized_def split: option.splits)

lemma scan_record_succeeds:
  assumes "map_of t ''id'' \<noteq> None" "n < N" "sized N flag acc"
  shows "scan_record flag n key t acc = Inr (record_outcome flag n key (cell_of t ''id'') acc)"
proof -
  from assms(1) obtain rid where rid: "map_of t ''id'' = Some rid" by auto
  have "\<exists>acc'. scan_record flag n key t acc = Inr acc'"
    using assms(2,3) rid
    by (auto simp: scan_record_def dict_getitem_def set_group_assoc_def set_admin_flag_def
        set_reviewer_flag_def py_setitem_def sized_def split: option.splits)
  then show ?thesis using scan_record_closed by blast
qed

lemma scan_records_succeeds:
  "list_all (\<lambda>t. map_of t ''id'' \<noteq> None) records \<Longrightarrow> n < N \<Longrightarrow> sized N flag acc \<Longrightarrow>
   \<exists>acc'. scan_records flag n key records acc = Inr acc' \<and> sized N flag acc'"
proof (induction records arbitrary: acc)
  case Nil
  then show ?case by simp
next
  case (Cons t rest)
  then have "scan_record flag n key t acc = Inr (record_outcome flag n key (cell_of t ''id'') acc)"
    by (simp add: scan_record_succeeds)
  moreover have "sized N flag (record_outcome flag n key (cell_of t ''id'') acc)"
    using Cons.prems by (simp add: sized_record_outcome)
  ultimately show ?case using Cons.IH Cons.prems by simp
qed

lemma scan_roles_succeeds:
  "list_all (\<lambda>(key, records). list_all (\<lambda>t. map_of t ''id'' \<noteq> None) records) roles \<Longrightarrow>
   n < N \<Longrightarrow> sized N flag acc \<Longrightarrow>
   \<exists>acc'. scan_roles flag n roles acc = Inr acc' \<and> sized N flag acc'"
proof (induction roles arbitrary: acc)
  case Nil
  then show ?case by simp
next
  case (Cons kr rest)
  obtain key records where kr: "kr = (key, records)" by (cases kr)
  with Cons.prems obtain acc1 where
    "scan_records flag n key records acc = Inr acc1" "sized N flag acc1"
    using scan_records_succeeds [of records n N flag acc key] by auto
  then show ?case using Cons.IH [of acc1] Cons.prems kr by simp
qed

lemma try_count_succeeds:
  "tolerated r \<Longrightarrow> n < length counts \<Longrightarrow>
   fst (try_count (map_sum id pd_DataFrame r, ev) what a counts n) =
     Inr (counts[n := count_after r (counts ! n)])"
  by (cases r) (auto simp: tolerated_def try_count_def count_after_def py_setitem_def)

lemma account_step_succeeds:
  assumes "roles_readable srv self a"
    and "tolerated (table_response srv (user_request self ''articles'' a))"
    and "tolerated (table_response srv (user_request self ''projects'' a))"
    and "tolerated (table_response srv (user_request self ''collections'' a))"
    and "n < N" and "sized N flag acc"
  shows "\<exists>acc'. fst (account_step srv self flag n a acc) = Inr acc' \<and> sized N flag acc'"
proof -
  from assms(1) obtain roles where roles: "roles_response srv (roles_request self a) = Inr roles"
    and readable: "list_all (\<lambda>(key, records). list_all (\<lambda>t. map_of t ''id'' \<noteq> None) records) roles"
    by (auto simp: roles_readable_def split: sum.splits)
  define acc1 where "acc1 = acc\<lparr>
      num_articles := (num_articles acc)
        [n := count_after (table_response srv (user_request self ''articles'' a)) (num_articles acc ! n)],
      num_projects := (num_projects acc)
        [n := count_after (table_response srv (user_request self ''projects'' a)) (num_projects acc ! n)],
      num_collections := (num_collections acc)
        [n := count_after (table_response srv (user_request self ''collections'' a)) (num_collections acc ! n)]\<rparr>"
  have "sized N flag acc1" using assms(6) by (simp add: acc1_def sized_def)
  from scan_roles_succeeds [OF readable assms(5) this] obtain acc' where
    scan: "scan_roles flag n roles acc1 = Inr acc'" and sized: "sized N flag acc'"
    by blast
  have lens: "n < length (num_articles acc)" "n < length (num_projects acc)"
    "n < length (num_collections acc)"
    using assms(5,6) by (simp_all add: sized_def)
  have "fst (account_step srv self flag n a acc) = Inr acc'"
    unfolding account_step_def
    by (simp add: fst_bind_io roles_fetch roles user_fetches try_count_succeeds assms(2-4) lens
        scan [unfolded acc1_def])
  with sized show ?thesis by blast
qed

lemma accounts_loop_succeeds:
  assumes "\<forall>(n, a) \<in> set zs. n < N \<and> roles_readable srv self a
      \<and> tolerated (table_response srv (user_request self ''articles'' a))
      \<and> tolerated (table_response srv (user_request self ''projects'' a))
      \<and> tolerated (table_response srv (user_request self ''collections'' a))"
    and "sized N flag acc"
  shows "\<exists>acc'. fst (accounts_loop srv self flag zs acc) = Inr acc'"
  using assms
proof (induction zs arbitrary: acc)
  case Nil
  then show ?case by simp
next
  case (Cons z zs)
  obtain n a where z: "z = (n, a)" by (cases z)
  with Cons.prems obtain acc1 where
    1: "fst (account_step srv self flag n a acc) = Inr acc1" and 2: "sized N flag acc1"
    using account_step_succeeds [of srv self a n N flag acc] by auto
  from Cons.IH [OF _ 2] Cons.prems(1) obtain acc' where
    "fst (accounts_loop srv self flag zs acc1) = Inr acc'"
    by auto
  then show ?case using 1 z by (simp add: fst_bind_io)
qed

lemma groups_loop_succeeds:
  "\<forall>(g, name) \<in> set groups. is_str name \<Longrightarrow> \<exists>assoc'. fst (groups_loop groups assoc) = Inr assoc'"
proof (induction groups arbitrary: assoc)
  case Nil
  then show ?case by simp
next
  case (Cons p rest)
  obtain g name where p: "p = (g, name)" by (cases p)
  with Cons.prems obtain s where "name = PyStr s" by (cases name) auto
  then have "\<exists>assoc1. replace_in_all assoc g name = Inr assoc1"
    by (simp add: replace_in_all_def)
  then show ?case using Cons.IH Cons.prems p by (auto simp: fst_bind_io)
qed

lemma bind_io_okI:
  "fst m = Inr x \<Longrightarrow> \<exists>y. fst (f x) = Inr y \<Longrightarrow> \<exists>y. fst (bind_io m f) = Inr y"
  by (simp add: fst_bind_io)

lemma details_succeeds:
  assumes list: "fst (get_account_list srv self) = Inr accounts_df"
    and ids: "df_getitem accounts_df ''id'' = Inr ids"
    and groups: "table_response srv (groups_request self) = Inr groups"
    and gids: "df_getitem (pd_DataFrame groups) ''id'' = Inr gids"
    and gnames: "df_getitem (pd_DataFrame groups) ''name'' = Inr gnames"
    and names: "list_all is_str gnames"
    and roles: "\<forall>a \<in> set ids. roles_readable srv self a"
    and arts: "\<forall>a \<in> set ids. tolerated (table_response srv (user_request self ''articles'' a))"
    and projs: "\<forall>a \<in> set ids. tolerated (table_response srv (user_request self ''projects'' a))"
    and colls: "\<forall>a \<in> set ids. tolerated (table_response srv (user_request self ''collections'' a))"
  shows "\<exists>table. fst (get_account_details srv self flag) = Inr table"
proof -
  have n: "df_shape0 accounts_df = length ids"
    using aligned_getitem [OF get_account_list_aligned [OF list] ids] by (simp add: df_shape0_def)
  define acc0 where "acc0 =
      \<lparr>num_articles = replicate (length ids) 0, num_projects = replicate (length ids) 0,
       num_collections = replicate (length ids) 0,
       admin_flag = (if flag then Some (replicate (length ids) []) else None),
       reviewer_flag = (if flag then Some (replicate (length ids) []) else None),
       group_assoc = replicate (length ids) ''N/A''\<rparr>"
  have "sized (length ids) flag acc0" by (simp add: sized_def acc0_def)
  moreover have "\<forall>(n, a) \<in> set (zip [0..<length ids] ids). n < length ids \<and> roles_readable srv self a
      \<and> tolerated (table_response srv (user_request self ''articles'' a))
      \<and> tolerated (table_response srv (user_request self ''projects'' a))
      \<and> tolerated (table_response srv (user_request self ''collections'' a))"
    using roles arts projs colls by (auto dest: set_zip_leftD set_zip_rightD)
  ultimately obtain acc where
    loop: "fst (accounts_loop srv self flag (zip [0..<length ids] ids) acc0) = Inr acc"
    using accounts_loop_succeeds by blast
  note arrays = loop_arrays [OF loop [unfolded acc0_def]]
  have "\<forall>(g, name) \<in> set (zip gids gnames). is_str name"
    using names by (auto simp: list_all_iff dest: set_zip_rightD)
  then obtain assoc where assoc: "fst (groups_loop (zip gids gnames) (group_assoc acc)) = Inr assoc"
    using groups_loop_succeeds by blast
  have alen: "length assoc = length ids"
    using groups_loop_closed [OF assoc] arrays(6) by simp
  have idx: "length (df_index accounts_df) = length ids"
    using n by (simp add: df_shape0_def)
  define df1 where "df1 = set_column accounts_df ''Articles'' (map PyInt (num_articles acc))"
  define df2 where "df2 = set_column df1 ''Projects'' (map PyInt (num_projects acc))"
  define df3 where "df3 = set_column df2 ''Collections'' (map PyInt (num_collections acc))"
  define df4 where "df4 = with_flags srv self flag ids df3"
  have s1: "df_setitem accounts_df ''Articles'' (map PyInt (num_articles acc)) = Inr df1"
    by (simp add: df_setitem_eq arrays idx df1_def)
  have s2: "df_setitem df1 ''Projects'' (map PyInt (num_projects acc)) = Inr df2"
    by (simp add: df_setitem_eq arrays idx df1_def df2_def)
  have s3: "df_setitem df2 ''Collections'' (map PyInt (num_collections acc)) = Inr df3"
    by (simp add: df_setitem_eq arrays idx df1_def df2_def df3_def)
  have i3: "length (df_index df3) = length ids"
    by (simp add: idx df1_def df2_def df3_def)
  have s4: "attach_flags flag acc df3 = Inr df4"
    by (simp add: attach_flags_def df_setitem_eq arrays i3 df4_def with_flags_def comp_def)
  have i4: "length (df_index df4) = length ids"
    by (simp add: i3 df4_def with_flags_def)
  have s5: "\<exists>table. df_setitem df4 ''Group'' (map PyStr assoc) = Inr table"
    by (simp add: df_setitem_eq alen i4)
  show ?thesis
    unfolding get_account_details_def Let_def
    apply (rule bind_io_okI [OF list])
    apply (rule bind_io_okI [where x = "pd_DataFrame groups"])
     apply (simp add: get_groups_eq groups)
    apply (rule bind_io_okI [where x = ids])
     apply (simp add: ids)
    apply (unfold n)
    apply (rule bind_io_okI [where x = acc])
     apply (rule loop [unfolded acc0_def])
    apply (rule bind_io_okI [where x = df1])
     apply (simp add: s1)
    apply (rule bind_io_okI [where x = df2])
     apply (simp add: s2)
    apply (rule bind_io_okI [where x = df3])
     apply (simp add: s3)
    apply (rule bind_io_okI [where x = df4])
     apply (simp add: s4)
    apply (rule bind_io_okI [where x = gids])
     apply (simp add: gids)
    apply (rule bind_io_okI [where x = gnames])
     apply (simp add: gnames)
    apply (rule bind_io_okI [OF assoc])
    apply (simp add: s5)
    done
qed

text \<open>What the aggregation logs.\<close>

lemma in_events_first: "w \<in> set (snd m) \<Longrightarrow> w \<in> set (snd (bind_io m f))"
  by (cases "fst m") (auto simp: snd_bind_io)

lemma in_events_rest: "fst m = Inr x \<Longrightarrow> w \<in> set (snd (f x)) \<Longrightarrow> w \<in> set (snd (bind_io m f))"
  by (simp add: snd_bind_io)

lemma try_count_user_events:
  "snd (try_count (get_user_articles srv self a) what a counts n) =
     Request (user_request self ''articles'' a) #
     (if table_response srv (user_request self ''articles'' a) = Inl HTTPError
      then [fetch_warning what a] else [])"
  "snd (try_count (get_user_projects srv self a) what a counts n) =
     Request (user_request self ''projects'' a) #
     (if table_response srv (user_request self ''projects'' a) = Inl HTTPError
      then [fetch_warning what a] else [])"
  "snd (try_count (get_user_collections srv self a) what a counts n) =
     Request (user_request self ''collections'' a) #
     (if table_response srv (user_request self ''collections'' a) = Inl HTTPError
      then [fetch_warning what a] else [])"
  unfolding user_fetches fetch_warning_def
  by (cases "table_response srv (user_request self ''articles'' a)";
      cases "table_response srv (user_request self ''projects'' a)";
      cases "table_response srv (user_request self ''collections'' a)";
      simp add: try_count_def)+

lemma account_step_warnings:
  assumes "fst (account_step srv self flag n a acc) = Inr acc'"
  shows "(table_response srv (user_request self ''articles'' a) = Inl HTTPError \<longrightarrow>
            fetch_warning ''articles'' a \<in> set (snd (account_step srv self flag n a acc)))
     \<and> (table_response srv (user_request self ''projects'' a) = Inl HTTPError \<longrightarrow>
            fetch_warning ''projects'' a \<in> set (snd (account_step srv self flag n a acc)))
     \<and> (table_response srv (user_request self ''collections'' a) = Inl HTTPError \<longrightarrow>
            fetch_warning ''collections'' a \<in> set (snd (account_step srv self flag n a acc)))"
proof -
  from assms obtain roles arts projs colls where
    roles: "roles_response srv (roles_request self a) = Inr roles"
    and arts: "fst (try_count (get_user_articles srv self a) ''articles'' a (num_articles acc) n) = Inr arts"
    and projs: "fst (try_count (get_user_projects srv self a) ''projects'' a (num_projects acc) n) = Inr projs"
    and colls: "fst (try_count (get_user_collections srv self a) ''collections'' a (num_collections acc) n) = Inr colls"
    unfolding account_step_def
    by (auto elim!: fst_bind_io_InrE simp: roles_fetch)
  have "snd (account_step srv self flag n a acc) =
      [Request (roles_request self a)]
      @ snd (try_count (get_user_articles srv self a) ''articles'' a (num_articles acc) n)
      @ snd (try_count (get_user_projects srv self a) ''projects'' a (num_projects acc) n)
      @ snd (try_count (get_user_collections srv self a) ''collections'' a (num_collections acc) n)"
    unfolding account_step_def
    by (simp only: snd_bind_io roles_fetch roles arts projs colls fst_conv snd_conv sum.case
        io_simps append_Nil2 append_assoc)
  then show ?thesis by (simp add: try_count_user_events)
qed

lemma accounts_loop_warnings:
  "fst (accounts_loop srv self flag zs acc) = Inr acc' \<Longrightarrow> (n, a) \<in> set zs \<Longrightarrow>
   (table_response srv (user_request self ''articles'' a) = Inl HTTPError \<longrightarrow>
      fetch_warning ''articles'' a \<in> set (snd (accounts_loop srv self flag zs acc)))
   \<and> (table_response srv (user_request self ''projects'' a) = Inl HTTPError \<longrightarrow>
      fetch_warning ''projects'' a \<in> set (snd (accounts_loop srv self flag zs acc)))
   \<and> (table_response srv (user_request self ''collections'' a) = Inl HTTPError \<longrightarrow>
      fetch_warning ''collections'' a \<in> set (snd (accounts_loop srv self flag zs acc)))"
proof (induction zs arbitrary: acc)
  case Nil
  then show ?case by simp
next
  case (Cons z zs)
  obtain m b where z: "z = (m, b)" by (cases z)
  from Cons.prems(1) z obtain acc1 where
    1: "fst (account_step srv self flag m b acc) = Inr acc1"
    and 2: "fst (accounts_loop srv self flag zs acc1) = Inr acc'"
    by (auto elim!: fst_bind_io_InrE)
  have events: "snd (accounts_loop srv self flag (z # zs) acc) =
      snd (account_step srv self flag m b acc) @ snd (accounts_loop srv self flag zs acc1)"
    using 1 z by (simp add: snd_bind_io)
  show ?case
  proof (cases "(n, a) = (m, b)")
    case True
    then show ?thesis using account_step_warnings [OF 1] by (simp add: events)
  next
    case False
    with Cons.prems(2) z have "(n, a) \<in> set zs" by auto
    from Cons.IH [OF 2 this] show ?thesis by (simp add: events)
  qed
qed

lemma details_loop_events:
  assumes list: "fst (get_account_list srv self) = Inr accounts_df"
    and groups: "table_response srv (groups_request self) = Inr groups"
    and ids: "df_getitem accounts_df ''id'' = Inr ids"
    and w: "w \<in> set (snd (accounts_loop srv self flag (zip [0..<df_shape0 accounts_df] ids)
        \<lparr>num_articles = replicate (df_shape0 accounts_df) 0,
         num_projects = replicate (df_shape0 accounts_df) 0,
         num_collections = replicate (df_shape0 accounts_df) 0,
         admin_flag = (if flag then Some (replicate (df_shape0 accounts_df) []) else None),
         reviewer_flag = (if flag then Some (replicate (df_shape0 accounts_df) []) else None),
         group_assoc = replicate (df_shape0 accounts_df) ''N/A''\<rparr>))"
  shows "w \<in> set (snd (get_account_details srv self flag))"
  unfolding get_account_details_def Let_def
  apply (rule in_events_rest [OF list])
  apply (rule in_events_rest [where x = "pd_DataFrame groups"])
   apply (simp add: get_groups_eq groups)
  apply (rule in_events_rest [where x = ids])
   apply (simp add: ids)
  apply (rule in_events_first)
  apply (rule w)
  done

lemma details_loop_ok:
  assumes ok: "fst (get_account_details srv self flag) = Inr table"
    and list: "fst (get_account_list srv self) = Inr accounts_df"
    and ids: "df_getitem accounts_df ''id'' = Inr ids"
  shows "\<exists>acc. fst (accounts_loop srv self flag (zip [0..<df_shape0 accounts_df] ids)
        \<lparr>num_articles = replicate (df_shape0 accounts_df) 0,
         num_projects = replicate (df_shape0 accounts_df) 0,
         num_collections = replicate (df_shape0 accounts_df) 0,
         admin_flag = (if flag then Some (replicate (df_shape0 accounts_df) []) else None),
         reviewer_flag = (if flag then Some (replicate (df_shape0 accounts_df) []) else None),
         group_assoc = replicate (df_shape0 accounts_df) ''N/A''\<rparr>) = Inr acc"
proof -
  from ok obtain adf ids' acc where
    adf: "fst (get_account_list srv self) = Inr adf"
    and ids': "df_getitem adf ''id'' = Inr ids'"
    and loop: "fst (accounts_loop srv self flag (zip [0..<df_shape0 adf] ids')
        \<lparr>num_articles = replicate (df_shape0 adf) 0, num_projects = replicate (df_shape0 adf) 0,
         num_collections = replicate (df_shape0 adf) 0,
         admin_flag = (if flag then Some (replicate (df_shape0 adf) []) else None),
         reviewer_flag = (if flag then Some (replicate (df_shape0 adf) []) else None),
         group_assoc = replicate (df_shape0 adf) ''N/A''\<rparr>) = Inr acc"
    unfolding get_account_details_def Let_def
    by (elim fst_bind_io_InrE) (simp only: io_simps fst_conv)
  from adf ids' list ids have "adf = accounts_df" "ids' = ids" by simp_all
  with loop show ?thesis by blast
qed

text \<open>
  C2. Let the account list, the group list and every role structure be fetched and
  readable, and let the per-account articles, projects and collections fetches either
  answer or raise an HTTP error. Then the aggregation returns a table, whichever of those
  fetches fail: no HTTP error of theirs is raised again. Each account's counts are read
  off its own fetches alone, zero where the fetch raised, the fetched number of rows
  otherwise; and for every fetch that raised, the warning naming the resource and the
  account is in the log.
\<close>

theorem fetch_failures_isolated:
  assumes "fst (get_account_list srv self) = Inr accounts_df"
    and "df_getitem accounts_df ''id'' = Inr ids"
    and "table_response srv (groups_request self) = Inr groups"
    and "df_getitem (pd_DataFrame groups) ''id'' = Inr gids"
    and "df_getitem (pd_DataFrame groups) ''name'' = Inr gnames"
    and "list_all is_str gnames"
    and "\<forall>a \<in> set ids. roles_readable srv self a"
    and "\<forall>a \<in> set ids. tolerated (table_response srv (user_request self ''articles'' a))"
    and "\<forall>a \<in> set ids. tolerated (table_response srv (user_request self ''projects'' a))"
    and "\<forall>a \<in> set ids. tolerated (table_response srv (user_request self ''collections'' a))"
  shows "\<exists>table. fst (get_account_details srv self flag) = Inr table
    \<and> df_getitem table ''Articles'' =
        Inr (map (\<lambda>a. PyInt (fetched_count (table_response srv (user_request self ''articles'' a)))) ids)
    \<and> df_getitem table ''Projects'' =
        Inr (map (\<lambda>a. PyInt (fetched_count (table_response srv (user_request self ''projects'' a)))) ids)
    \<and> df_getitem table ''Collections'' =
        Inr (map (\<lambda>a. PyInt (fetched_count (table_response srv (user_request self ''collections'' a)))) ids)
    \<and> (\<forall>a \<in> set ids.
         (table_response srv (user_request self ''articles'' a) = Inl HTTPError \<longrightarrow>
            fetch_warning ''articles'' a \<in> set (snd (get_account_details srv self flag)))
         \<and> (table_response srv (user_request self ''projects'' a) = Inl HTTPError \<longrightarrow>
            fetch_warning ''projects'' a \<in> set (snd (get_account_details srv self flag)))
         \<and> (table_response srv (user_request self ''collections'' a) = Inl HTTPError \<longrightarrow>
            fetch_warning ''collections'' a \<in> set (snd (get_account_details srv self flag))))
    \<and> (\<forall>e. fetched_count (Inl e) = 0)
    \<and> (\<forall>rows. fetched_count (Inr rows) = int (length rows))"
proof -
  from details_succeeds [OF assms] obtain table where
    ok: "fst (get_account_details srv self flag) = Inr table"
    by blast
  from ok obtain adf ids' gids' gnames' where
    adf: "fst (get_account_list srv self) = Inr adf"
    and ids': "df_getitem adf ''id'' = Inr ids'" "length ids' = length (df_index adf)"
    and table: "table = details_table srv self flag adf ids' (zip gids' gnames')"
    by (rule details_closed) blast
  from adf ids' assms(1,2) have same: "adf = accounts_df" "ids' = ids" by simp_all
  have n: "df_shape0 accounts_df = length ids"
    using ids'(2) same by (simp add: df_shape0_def)
  from details_loop_ok [OF ok assms(1,2)] obtain acc where
    loop: "fst (accounts_loop srv self flag (zip [0..<df_shape0 accounts_df] ids)
        \<lparr>num_articles = replicate (df_shape0 accounts_df) 0,
         num_projects = replicate (df_shape0 accounts_df) 0,
         num_collections = replicate (df_shape0 accounts_df) 0,
         admin_flag = (if flag then Some (replicate (df_shape0 accounts_df) []) else None),
         reviewer_flag = (if flag then Some (replicate (df_shape0 accounts_df) []) else None),
         group_assoc = replicate (df_shape0 accounts_df) ''N/A''\<rparr>) = Inr acc"
    by blast
  have logged: "(table_response srv (user_request self ''articles'' a) = Inl HTTPError \<longrightarrow>
            fetch_warning ''articles'' a \<in> set (snd (get_account_details srv self flag)))
         \<and> (table_response srv (user_request self ''projects'' a) = Inl HTTPError \<longrightarrow>
            fetch_warning ''projects'' a \<in> set (snd (get_account_details srv self flag)))
         \<and> (table_response srv (user_request self ''collections'' a) = Inl HTTPError \<longrightarrow>
            fetch_warning ''collections'' a \<in> set (snd (get_account_details srv self flag)))"
    if "a \<in> set ids" for a
  proof -
    from that obtain i where "i < length ids" "ids ! i = a" by (auto simp: in_set_conv_nth)
    then have "(i, a) \<in> set (zip [0..<df_shape0 accounts_df] ids)"
      by (auto simp: set_zip n intro!: exI [of _ i])
    from accounts_loop_warnings [OF loop this] show ?thesis
      using details_loop_events [OF assms(1,3,2)] by blast
  qed
  show ?thesis
    using ok logged unfolding table same
    by (simp add: details_getitem_counts fetched_count_def count_after_def)
qed

lemma demo_readable: "\<forall>a \<in> set [PyInt 1, PyInt 3, PyInt 4]. roles_readable demo_services demo_client a"
  by code_simp

lemma demo_tolerated:
  "\<forall>a \<in> set [PyInt 1, PyInt 3, PyInt 4].
     tolerated (table_response demo_services (user_request demo_client ''articles'' a))"
  "\<forall>a \<in> set [PyInt 1, PyInt 3, PyInt 4].
     tolerated (table_response demo_services (user_request demo_client ''projects'' a))"
  "\<forall>a \<in> set [PyInt 1, PyInt 3, PyInt 4].
     tolerated (table_response demo_services (user_request demo_client ''collections'' a))"
  by code_simp+

theorem fetch_failures_isolated_witness:
  "fst (get_account_details demo_services demo_client True) = Inr demo_table
   \<and> table_response demo_services (user_request demo_client ''articles'' (PyInt 3)) = Inl HTTPError
   \<and> Logged WARNING ''Unable to retrieve articles for : 3''
       \<in> set (snd (get_account_details demo_services demo_client True))
   \<and> df_getitem demo_table ''Articles'' = Inr [PyInt 2, PyInt 0, PyInt 2]"
proof -
  have names: "list_all is_str [PyStr ''A'', PyStr ''B'', PyStr ''Library'']" by simp
  from fetch_failures_isolated [OF demo_account_list_df demo_account_ids demo_groups_response
      demo_group_columns names demo_readable demo_tolerated, of True]
  have "\<forall>a \<in> set [PyInt 1, PyInt 3, PyInt 4].
      table_response demo_services (user_request demo_client ''articles'' a) = Inl HTTPError \<longrightarrow>
      fetch_warning ''articles'' a \<in> set (snd (get_account_details demo_services demo_client True))"
    by blast
  moreover have failed:
    "table_response demo_services (user_request demo_client ''articles'' (PyInt 3)) = Inl HTTPError"
    by code_simp
  ultimately have "fetch_warning ''articles'' (PyInt 3)
      \<in> set (snd (get_account_details demo_services demo_client True))"
    by simp
  moreover have "fetch_warning ''articles'' (PyInt 3) = Logged WARNING ''Unable to retrieve articles for : 3''"
    by code_simp
  moreover have "df_getitem demo_table ''Articles'' = Inr [PyInt 2, PyInt 0, PyInt 2]"
    by code_simp
  ultimately show ?thesis using failed demo_details by simp
qed

text \<open>The table of a run that goes through.\<close>

lemma details_run:
  assumes "fst (get_account_list srv self) = Inr accounts_df"
    and "df_getitem accounts_df ''id'' = Inr ids"
    and "table_response srv (groups_request self) = Inr groups"
    and "df_getitem (pd_DataFrame groups) ''id'' = Inr gids"
    and "df_getitem (pd_DataFrame groups) ''name'' = Inr gnames"
    and "list_all is_str gnames"
    and "\<forall>a \<in> set ids. roles_readable srv self a"
    and "\<forall>a \<in> set ids. tolerated (table_response srv (user_request self ''articles'' a))"
    and "\<forall>a \<in> set ids. tolerated (table_response srv (user_request self ''projects'' a))"
    and "\<forall>a \<in> set ids. tolerated (table_response srv (user_request self ''collections'' a))"
  shows "fst (get_account_details srv self flag) =
      Inr (details_table srv self flag accounts_df ids (zip gids gnames))"
    and "length ids = length (df_index accounts_df)"
    and "\<forall>a \<in> set ids. roles_response srv (roles_request self a) = Inr (roles_of srv self a)"
proof -
  from details_succeeds [OF assms] obtain table where
    ok: "fst (get_account_details srv self flag) = Inr table"
    by blast
  from ok obtain adf ids' groups' gids' gnames' where
    adf: "fst (get_account_list srv self) = Inr adf"
    and ids': "df_getitem adf ''id'' = Inr ids'" "length ids' = length (df_index adf)"
    and groups': "table_response srv (groups_request self) = Inr groups'"
    and gids': "df_getitem (pd_DataFrame groups') ''id'' = Inr gids'"
    and gnames': "df_getitem (pd_DataFrame groups') ''name'' = Inr gnames'"
    and roles: "\<And>a. a \<in> set ids' \<Longrightarrow> roles_response srv (roles_request self a) = Inr (roles_of srv self a)"
    and table: "table = details_table srv self flag adf ids' (zip gids' gnames')"
    by (rule details_closed) blast
  from adf ids' groups' gids' gnames' assms(1-5)
  have same: "adf = accounts_df" "ids' = ids" "gids' = gids" "gnames' = gnames"
    by simp_all
  show "fst (get_account_details srv self flag) =
      Inr (details_table srv self flag accounts_df ids (zip gids gnames))"
    using ok table same by simp
  show "length ids = length (df_index accounts_df)"
    using ids'(2) same by simp
  show "\<forall>a \<in> set ids. roles_response srv (roles_request self a) = Inr (roles_of srv self a)"
    using roles same by simp
qed

lemma resolve_groups_exact_name:
  assumes "zip gids gnames = pre @ (g, PyStr name) # post"
    and "\<forall>(g', name') \<in> set pre. \<not> sublist (py_str g') (py_str g)"
    and "\<forall>(g', name') \<in> set post. \<not> sublist (py_str g') name"
  shows "resolve_groups (zip gids gnames) (py_str g) = name"
  using resolve_groups_exact [of pre g post "PyStr name"] assms by simp

text \<open>
  C1. Let the account list, the group list and every role structure be fetched and
  readable, and let the per-account articles, projects and collections fetches either
  answer or raise an HTTP error. Then the aggregation returns a table. It has the row
  labels of the (possibly admin-filtered) account list in the same order and its id
  column, one row per surviving account; every column of the account list that is not
  named like an attached one holds the same cells row for row; and the Articles, Projects
  and Collections columns are present and hold one integer per account: the number of rows
  fetched for that account, and zero where the fetch failed.
\<close>

theorem account_details_rows:
  assumes "fst (get_account_list srv self) = Inr accounts_df"
    and "df_getitem accounts_df ''id'' = Inr ids"
    and "table_response srv (groups_request self) = Inr groups"
    and "df_getitem (pd_DataFrame groups) ''id'' = Inr gids"
    and "df_getitem (pd_DataFrame groups) ''name'' = Inr gnames"
    and "list_all is_str gnames"
    and "\<forall>a \<in> set ids. roles_readable srv self a"
    and "\<forall>a \<in> set ids. tolerated (table_response srv (user_request self ''articles'' a))"
    and "\<forall>a \<in> set ids. tolerated (table_response srv (user_request self ''projects'' a))"
    and "\<forall>a \<in> set ids. tolerated (table_response srv (user_request self ''collections'' a))"
  shows "\<exists>table. fst (get_account_details srv self flag) = Inr table
    \<and> df_index table = df_index accounts_df
    \<and> length ids = length (df_index accounts_df)
    \<and> df_getitem table ''id'' = Inr ids
    \<and> (\<forall>c. c \<notin> set (new_columns flag) \<longrightarrow> df_getitem table c = df_getitem accounts_df c)
    \<and> df_getitem table ''Articles'' =
        Inr (map (\<lambda>a. PyInt (fetched_count (table_response srv (user_request self ''articles'' a)))) ids)
    \<and> df_getitem table ''Projects'' =
        Inr (map (\<lambda>a. PyInt (fetched_count (table_response srv (user_request self ''projects'' a)))) ids)
    \<and> df_getitem table ''Collections'' =
        Inr (map (\<lambda>a. PyInt (fetched_count (table_response srv (user_request self ''collections'' a)))) ids)
    \<and> (\<forall>e. fetched_count (Inl e) = 0)
    \<and> (\<forall>rows. fetched_count (Inr rows) = int (length rows))"
proof -
  note run = details_run [OF assms]
  have id: "''id'' \<notin> set (new_columns flag)" by (simp add: new_columns_def)
  show ?thesis
  proof (intro exI conjI)
    show "fst (get_account_details srv self flag) =
        Inr (details_table srv self flag accounts_df ids (zip gids gnames))"
      by (rule run(1))
    show "length ids = length (df_index accounts_df)" by (rule run(2))
    show "df_getitem (details_table srv self flag accounts_df ids (zip gids gnames)) ''id'' = Inr ids"
      using id assms(2) by (simp add: details_getitem_kept)
  qed (simp_all add: details_getitem_kept details_getitem_counts fetched_count_def count_after_def)
qed

theorem account_details_rows_witness:
  "fst (get_account_details demo_services demo_client True) = Inr demo_table
   \<and> df_index demo_table = df_index demo_accounts_df
   \<and> df_getitem demo_table ''id'' = Inr [PyInt 1, PyInt 3, PyInt 4]
   \<and> df_getitem demo_table ''email'' = df_getitem demo_accounts_df ''email''
   \<and> df_getitem demo_table ''Articles'' = Inr [PyInt 2, PyInt 0, PyInt 2]
   \<and> table_response demo_services (user_request demo_client ''articles'' (PyInt 3)) = Inl HTTPError"
proof -
  have names: "list_all is_str [PyStr ''A'', PyStr ''B'', PyStr ''Library'']" by simp
  from account_details_rows [OF demo_account_list_df demo_account_ids demo_groups_response
      demo_group_columns names demo_readable demo_tolerated, of True]
  obtain table where run: "fst (get_account_details demo_services demo_client True) = Inr table"
    and rows: "df_index table = df_index demo_accounts_df"
      "df_getitem table ''id'' = Inr [PyInt 1, PyInt 3, PyInt 4]"
    and kept: "\<forall>c. c \<notin> set (new_columns True) \<longrightarrow> df_getitem table c = df_getitem demo_accounts_df c"
    and arts: "df_getitem table ''Articles'' =
        Inr (map (\<lambda>a. PyInt (fetched_count (table_response demo_services (user_request demo_client ''articles'' a))))
          [PyInt 1, PyInt 3, PyInt 4])"
    by blast
  from run demo_details have table: "table = demo_table" by simp
  have "''email'' \<notin> set (new_columns True)" by (simp add: new_columns_def)
  with kept have email: "df_getitem table ''email'' = df_getitem demo_accounts_df ''email''" by blast
  have counts: "map (\<lambda>a. PyInt (fetched_count (table_response demo_services (user_request demo_client ''articles'' a))))
          [PyInt 1, PyInt 3, PyInt 4] = [PyInt 2, PyInt 0, PyInt 2]"
    "table_response demo_services (user_request demo_client ''articles'' (PyInt 3)) = Inl HTTPError"
    by code_simp+
  show ?thesis
    using run rows email arts counts unfolding table by simp
qed

text \<open>
  C10 (amended). Under the same conditions the aggregation returns a table that leaves the
  account list it starts from as it is, but for the columns that already bear the name of
  an attached one: the row labels are the same and every column not named like an attached
  one has the same cells. Where no column of the account list bears the name of an attached
  column (as for the accounts the service documents), the returned table is the account
  list's columns, unchanged and in order, followed by the new columns Articles, Projects,
  Collections, then Admin and Reviewer when flags are requested, then Group.
\<close>

theorem account_columns_kept:
  assumes "fst (get_account_list srv self) = Inr accounts_df"
    and "df_getitem accounts_df ''id'' = Inr ids"
    and "table_response srv (groups_request self) = Inr groups"
    and "df_getitem (pd_DataFrame groups) ''id'' = Inr gids"
    and "df_getitem (pd_DataFrame groups) ''name'' = Inr gnames"
    and "list_all is_str gnames"
    and "\<forall>a \<in> set ids. roles_readable srv self a"
    and "\<forall>a \<in> set ids. tolerated (table_response srv (user_request self ''articles'' a))"
    and "\<forall>a \<in> set ids. tolerated (table_response srv (user_request self ''projects'' a))"
    and "\<forall>a \<in> set ids. tolerated (table_response srv (user_request self ''collections'' a))"
  shows "\<exists>table. fst (get_account_details srv self flag) = Inr table
    \<and> df_index table = df_index accounts_df
    \<and> (\<forall>c. c \<notin> set (new_columns flag) \<longrightarrow> df_getitem table c = df_getitem accounts_df c)
    \<and> (set (df_columns accounts_df) \<inter> set (new_columns flag) = {} \<longrightarrow>
         (\<exists>new. df_cols table = df_cols accounts_df @ new \<and> map fst new = new_columns flag))"
proof -
  note run = details_run [OF assms]
  show ?thesis
  proof (intro exI conjI)
    show "fst (get_account_details srv self flag) =
        Inr (details_table srv self flag accounts_df ids (zip gids gnames))"
      by (rule run(1))
    show "set (df_columns accounts_df) \<inter> set (new_columns flag) = {} \<longrightarrow>
         (\<exists>new. df_cols (details_table srv self flag accounts_df ids (zip gids gnames)) =
            df_cols accounts_df @ new \<and> map fst new = new_columns flag)"
      using details_cols_fresh [of accounts_df flag srv self ids "zip gids gnames"] by simp
  qed (simp_all add: details_getitem_kept)
qed

theorem account_columns_kept_witness:
  "fst (get_account_details demo_services demo_client True) = Inr demo_table
   \<and> fst (get_account_details demo_services demo_client False) = Inr demo_table_unflagged
   \<and> df_index demo_table = df_index demo_accounts_df
   \<and> df_getitem demo_table ''email'' = df_getitem demo_accounts_df ''email''
   \<and> df_cols demo_table = df_cols demo_accounts_df @ drop 2 (df_cols demo_table)
   \<and> map fst (drop 2 (df_cols demo_table)) =
       [''Articles'', ''Projects'', ''Collections'', ''Admin'', ''Reviewer'', ''Group'']
   \<and> df_cols demo_table_unflagged = df_cols demo_accounts_df @ drop 2 (df_cols demo_table_unflagged)
   \<and> map fst (drop 2 (df_cols demo_table_unflagged)) =
       [''Articles'', ''Projects'', ''Collections'', ''Group'']"
proof -
  have names: "list_all is_str [PyStr ''A'', PyStr ''B'', PyStr ''Library'']" by simp
  have fresh: "set (df_columns demo_accounts_df) \<inter> set (new_columns flag) = {}" for flag
    by (simp add: df_columns_def demo_accounts_df_def new_columns_def)
  have email: "''email'' \<notin> set (new_columns True)" by (simp add: new_columns_def)
  from account_columns_kept [OF demo_account_list_df demo_account_ids demo_groups_response
      demo_group_columns names demo_readable demo_tolerated, of True] fresh email
  obtain table new where run: "fst (get_account_details demo_services demo_client True) = Inr table"
    and kept: "df_index table = df_index demo_accounts_df"
      "df_getitem table ''email'' = df_getitem demo_accounts_df ''email''"
    and new: "df_cols table = df_cols demo_accounts_df @ new" "map fst new = new_columns True"
    by blast
  from account_columns_kept [OF demo_account_list_df demo_account_ids demo_groups_response
      demo_group_columns names demo_readable demo_tolerated, of False] fresh
  obtain table' new' where run': "fst (get_account_details demo_services demo_client False) = Inr table'"
    and new': "df_cols table' = df_cols demo_accounts_df @ new'" "map fst new' = new_columns False"
    by blast
  from run demo_details have table: "table = demo_table" by simp
  from run' demo_details_unflagged have table': "table' = demo_table_unflagged" by simp
  have len: "length (df_cols demo_accounts_df) = 2" by (simp add: demo_accounts_df_def)
  have "drop 2 (df_cols demo_table) = new" "drop 2 (df_cols demo_table_unflagged) = new'"
    using len new(1) new'(1) unfolding table table' by simp_all
  then show ?thesis
    using run run' kept new new' unfolding table table' by (simp add: new_columns_def)
qed

text \<open>
  C10 as stated fails: the one account of this service carries the fields Group and
  Articles, which the account list keeps as columns; the aggregation returns a table in
  which both columns hold the attached values instead.
\<close>

theorem labelled_columns_overwritten:
  "fst (get_account_list labelled_services demo_client) = Inr labelled_accounts_df
   \<and> fst (get_account_details labelled_services demo_client True) = Inr labelled_table
   \<and> df_getitem labelled_accounts_df ''Group'' = Inr [PyStr ''Staff'']
   \<and> df_getitem labelled_table ''Group'' = Inr [PyStr ''N/A'']
   \<and> df_getitem labelled_accounts_df ''Articles'' = Inr [PyInt 9]
   \<and> df_getitem labelled_table ''Articles'' = Inr [PyInt 2]
   \<and> df_getitem labelled_table ''Group'' \<noteq> df_getitem labelled_accounts_df ''Group''
   \<and> df_getitem labelled_table ''Articles'' \<noteq> df_getitem labelled_accounts_df ''Articles''"
  by code_simp

text \<open>
  C5 (amended). Under the same conditions the aggregation returns a table whose Group
  column holds, for every account, what the group loop makes of the provisional value: one
  global substring replacement per group, in group-list order, of the stringified group id
  by the group name. The provisional value is the key of the last id-11 record in scan
  order, or \<open>N/A\<close> when there is none; the keys of earlier id-11 records play no part.
  When the key of the last id-11 record is the stringified id of a group, the field equals
  that group's name, provided no earlier group's stringified id occurs in the key and no
  later group's stringified id occurs in the name. Without any id-11 record the field stays
  \<open>N/A\<close>, the group ids being integers.
\<close>

theorem group_association:
  assumes "fst (get_account_list srv self) = Inr accounts_df"
    and "df_getitem accounts_df ''id'' = Inr ids"
    and "table_response srv (groups_request self) = Inr groups"
    and "df_getitem (pd_DataFrame groups) ''id'' = Inr gids"
    and "df_getitem (pd_DataFrame groups) ''name'' = Inr gnames"
    and "list_all is_str gnames"
    and "\<forall>a \<in> set ids. roles_readable srv self a"
    and "\<forall>a \<in> set ids. tolerated (table_response srv (user_request self ''articles'' a))"
    and "\<forall>a \<in> set ids. tolerated (table_response srv (user_request self ''projects'' a))"
    and "\<forall>a \<in> set ids. tolerated (table_response srv (user_request self ''collections'' a))"
  shows "\<exists>table field. fst (get_account_details srv self flag) = Inr table
    \<and> df_getitem table ''Group'' = Inr (map PyStr field)
    \<and> length field = length ids
    \<and> (\<forall>a \<in> set ids. roles_response srv (roles_request self a) = Inr (roles_of srv self a))
    \<and> (\<forall>n < length ids.
          field ! n = resolve_groups (zip gids gnames)
            (if curator_keys (roles_of srv self (ids ! n)) = [] then ''N/A''
             else last (curator_keys (roles_of srv self (ids ! n)))))
    \<and> (\<forall>n < length ids.
          curator_keys (roles_of srv self (ids ! n)) = [] \<and> (\<forall>g \<in> set gids. \<exists>i. g = PyInt i)
          \<longrightarrow> field ! n = ''N/A'')
    \<and> (\<forall>n pre g name post.
          n < length ids
          \<and> curator_keys (roles_of srv self (ids ! n)) \<noteq> []
          \<and> last (curator_keys (roles_of srv self (ids ! n))) = py_str g
          \<and> zip gids gnames = pre @ (g, PyStr name) # post
          \<and> (\<forall>(g', name') \<in> set pre. \<not> sublist (py_str g') (py_str g))
          \<and> (\<forall>(g', name') \<in> set post. \<not> sublist (py_str g') name)
          \<longrightarrow> field ! n = name)"
proof -
  note run = details_run [OF assms]
  define field where "field = map (\<lambda>a. resolve_groups (zip gids gnames)
      (if curator_keys (roles_of srv self a) = [] then ''N/A''
       else last (curator_keys (roles_of srv self a)))) ids"
  have cell: "field ! n = resolve_groups (zip gids gnames)
      (if curator_keys (roles_of srv self (ids ! n)) = [] then ''N/A''
       else last (curator_keys (roles_of srv self (ids ! n))))" if "n < length ids" for n
    using that by (simp add: field_def)
  have column: "df_getitem (details_table srv self flag accounts_df ids (zip gids gnames)) ''Group'' =
      Inr (map PyStr field)"
    by (simp add: details_getitem_group assoc_after_def field_def comp_def)
  have absent: "field ! n = ''N/A''"
    if "n < length ids" "curator_keys (roles_of srv self (ids ! n)) = []"
      "\<forall>g \<in> set gids. \<exists>i. g = PyInt i" for n
    using that cell [of n] resolve_groups_NA [of gids gnames] by simp
  have exact: "field ! n = name"
    if "n < length ids" "curator_keys (roles_of srv self (ids ! n)) \<noteq> []"
      "last (curator_keys (roles_of srv self (ids ! n))) = py_str g"
      "zip gids gnames = pre @ (g, PyStr name) # post"
      "\<forall>(g', name') \<in> set pre. \<not> sublist (py_str g') (py_str g)"
      "\<forall>(g', name') \<in> set post. \<not> sublist (py_str g') name"
    for n pre g name post
    using cell [OF that(1)] that(2,3) resolve_groups_exact_name [OF that(4,5,6)] by simp
  have len: "length field = length ids" by (simp add: field_def)
  from run(1) column len run(3) cell absent exact show ?thesis
    by blast
qed

lemma two_keys_run:
  "fst (get_account_list two_keys_services demo_client) = Inr demo_accounts_df"
  "table_response two_keys_services (groups_request demo_client) =
     Inr [demo_group 1 ''A'', demo_group 12 ''B'', demo_group 5 ''Library'']"
  "\<forall>a \<in> set [PyInt 1, PyInt 3, PyInt 4]. roles_readable two_keys_services demo_client a"
  "\<forall>a \<in> set [PyInt 1, PyInt 3, PyInt 4].
     tolerated (table_response two_keys_services (user_request demo_client ''articles'' a))"
  "\<forall>a \<in> set [PyInt 1, PyInt 3, PyInt 4].
     tolerated (table_response two_keys_services (user_request demo_client ''projects'' a))"
  "\<forall>a \<in> set [PyInt 1, PyInt 3, PyInt 4].
     tolerated (table_response two_keys_services (user_request demo_client ''collections'' a))"
  by code_simp+

lemma two_keys_details:
  "fst (get_account_details two_keys_services demo_client True) = Inr two_keys_table"
  by code_simp

theorem group_association_witness:
  "fst (get_account_details two_keys_services demo_client True) = Inr two_keys_table
   \<and> df_getitem two_keys_table ''id'' = Inr [PyInt 1, PyInt 3, PyInt 4]
   \<and> curator_keys (roles_of two_keys_services demo_client (PyInt 3)) = [''5'']
   \<and> curator_keys (roles_of two_keys_services demo_client (PyInt 4)) = [''1'', ''5'']
   \<and> (\<exists>field. df_getitem two_keys_table ''Group'' = Inr (map PyStr field)
        \<and> field ! 1 = ''Library'' \<and> field ! 2 = ''Library'')
   \<and> fst (get_account_details demo_services demo_client True) = Inr demo_table
   \<and> curator_keys (roles_of demo_services demo_client (PyInt 4)) = []
   \<and> (\<exists>field. df_getitem demo_table ''Group'' = Inr (map PyStr field) \<and> field ! 2 = ''N/A'')"
proof -
  have names: "list_all is_str [PyStr ''A'', PyStr ''B'', PyStr ''Library'']" by simp
  have z: "zip [PyInt 1, PyInt 12, PyInt 5] [PyStr ''A'', PyStr ''B'', PyStr ''Library''] =
      [(PyInt 1, PyStr ''A''), (PyInt 12, PyStr ''B'')] @ (PyInt 5, PyStr ''Library'') # []"
    by simp
  have strs: "str_int 5 = ''5''" "str_int 1 = ''1''" "str_int 12 = ''12''"
    by code_simp+
  have nosub: "\<not> sublist ''1'' ''5''" "\<not> sublist ''12'' ''5''" by code_simp+
  have keys: "curator_keys (roles_of two_keys_services demo_client (PyInt 3)) = [''5'']"
    "curator_keys (roles_of two_keys_services demo_client (PyInt 4)) = [''1'', ''5'']"
    "curator_keys (roles_of demo_services demo_client (PyInt 4)) = []"
    "df_getitem two_keys_table ''id'' = Inr [PyInt 1, PyInt 3, PyInt 4]"
    by code_simp+
  from group_association [OF two_keys_run(1) demo_account_ids two_keys_run(2) demo_group_columns
      names two_keys_run(3-6), of True]
  obtain table field where run: "fst (get_account_details two_keys_services demo_client True) = Inr table"
    and col: "df_getitem table ''Group'' = Inr (map PyStr field)"
    and exact: "\<forall>n pre g name post.
          n < length [PyInt 1, PyInt 3, PyInt 4]
          \<and> curator_keys (roles_of two_keys_services demo_client ([PyInt 1, PyInt 3, PyInt 4] ! n)) \<noteq> []
          \<and> last (curator_keys (roles_of two_keys_services demo_client ([PyInt 1, PyInt 3, PyInt 4] ! n))) = py_str g
          \<and> zip [PyInt 1, PyInt 12, PyInt 5] [PyStr ''A'', PyStr ''B'', PyStr ''Library''] = pre @ (g, PyStr name) # post
          \<and> (\<forall>(g', name') \<in> set pre. \<not> sublist (py_str g') (py_str g))
          \<and> (\<forall>(g', name') \<in> set post. \<not> sublist (py_str g') name)
          \<longrightarrow> field ! n = name"
    by blast
  from run two_keys_details have table: "table = two_keys_table" by simp
  have 1: "field ! 1 = ''Library''"
    using exact [rule_format, of 1 "PyInt 5" "[(PyInt 1, PyStr ''A''), (PyInt 12, PyStr ''B'')]" "''Library''" "[]"]
      nosub keys by (simp add: strs)
  have 2: "field ! 2 = ''Library''"
    using exact [rule_format, of 2 "PyInt 5" "[(PyInt 1, PyStr ''A''), (PyInt 12, PyStr ''B'')]" "''Library''" "[]"]
      nosub keys by (simp add: strs)
  from group_association [OF demo_account_list_df demo_account_ids demo_groups_response
      demo_group_columns names demo_readable demo_tolerated, of True]
  obtain table' field' where run': "fst (get_account_details demo_services demo_client True) = Inr table'"
    and col': "df_getitem table' ''Group'' = Inr (map PyStr field')"
    and absent: "\<forall>n < length [PyInt 1, PyInt 3, PyInt 4].
          curator_keys (roles_of demo_services demo_client ([PyInt 1, PyInt 3, PyInt 4] ! n)) = []
          \<and> (\<forall>g \<in> set [PyInt 1, PyInt 12, PyInt 5]. \<exists>i. g = PyInt i)
          \<longrightarrow> field' ! n = ''N/A''"
    by blast
  from run' demo_details have table': "table' = demo_table" by simp
  have 3: "field' ! 2 = ''N/A''"
    using absent [rule_format, of 2] keys by simp
  show ?thesis
    using run col 1 2 run' col' 3 keys unfolding table table' by blast
qed

text \<open>
  C5 as stated fails: account 1 has its only id-11 record under the key \<open>12\<close>, the
  stringified id of group \<open>B\<close>, yet its field ends as \<open>A2\<close>, since group 1 is replaced
  first.
\<close>

theorem group_id_prefix_corrupts:
  "curator_keys (roles_of demo_services demo_client (PyInt 1)) = [''12'']
   \<and> table_response demo_services (groups_request demo_client) =
       Inr [demo_group 1 ''A'', demo_group 12 ''B'', demo_group 5 ''Library'']
   \<and> py_str (PyInt 12) = ''12''
   \<and> fst (get_account_details demo_services demo_client True) = Inr demo_table
   \<and> df_getitem demo_table ''id'' = Inr [PyInt 1, PyInt 3, PyInt 4]
   \<and> df_getitem demo_table ''Group'' = Inr [PyStr ''A2'', PyStr ''Library'', PyStr ''N/A'']"
  by code_simp

end
